theory Spec2Isabelle
  imports Main "HOL-Library.Sublist"
begin

section \<open>JavaScript strings\<close>

text \<open>
  Strings of the CLI are modelled as \<^typ>\<open>string\<close>; a character stands for one code unit
  in the Latin-1 range. The methods of \<^verbatim>\<open>String.prototype\<close> that \<^verbatim>\<open>src/cli.js\<close> calls
  are written out below with the receiver as first argument.
\<close>

definition startsWith :: "string \<Rightarrow> string \<Rightarrow> bool" where
  "startsWith s p = prefix p s"

text \<open>White space and line terminators that \<^verbatim>\<open>trim()\<close> strips: TAB, LF, VT, FF, CR, SP, NBSP.\<close>

definition isWhiteSpace :: "char \<Rightarrow> bool" where
  "isWhiteSpace c = (c \<in> {CHR 0x09, CHR 0x0A, CHR 0x0B, CHR 0x0C, CHR 0x0D, CHR 0x20, CHR 0xA0})"

definition trim :: "string \<Rightarrow> string" where
  "trim s = rev (dropWhile isWhiteSpace (rev (dropWhile isWhiteSpace s)))"

text \<open>\<^verbatim>\<open>s.split(c)\<close> for a one-character separator: never the empty list.\<close>

fun split :: "string \<Rightarrow> char \<Rightarrow> string list" where
  "split [] c = [[]]"
| "split (x # xs) c =
     (if x = c then [] # split xs c
      else (case split xs c of [] \<Rightarrow> [[x]] | y # ys \<Rightarrow> (x # y) # ys))"

text \<open>Indexing an array: \<^verbatim>\<open>undefined\<close> (here \<^const>\<open>None\<close>) out of range.\<close>

fun at :: "'a list \<Rightarrow> nat \<Rightarrow> 'a option" where
  "at [] n = None"
| "at (x # xs) 0 = Some x"
| "at (x # xs) (Suc n) = at xs n"

text \<open>
  The first occurrence of a pattern in a string: the text before it and the text after it.
\<close>

fun indexOf :: "string \<Rightarrow> string \<Rightarrow> (string \<times> string) option" where
  "indexOf [] p = (if p = [] then Some ([], []) else None)"
| "indexOf (x # xs) p =
     (if prefix p (x # xs) then Some ([], drop (length p) (x # xs))
      else (case indexOf xs p of None \<Rightarrow> None | Some (b, a) \<Rightarrow> Some (x # b, a)))"

text \<open>
  The replacement text of \<^verbatim>\<open>replace\<close> passes through the substitution of the language
  standard (GetSubstitution) also when the pattern is a string: \<^verbatim>\<open>$$\<close> is a dollar sign,
  \<^verbatim>\<open>$&\<close> the matched text, \<^verbatim>\<open>$`\<close> the text before the match, \<^verbatim>\<open>$'\<close> the text after it.
  A string pattern has no capture groups, so every other dollar sign stands for itself.
\<close>

fun getSubstitution :: "string \<Rightarrow> string \<Rightarrow> string \<Rightarrow> string \<Rightarrow> string" where
  "getSubstitution matched before after [] = []"
| "getSubstitution matched before after [c] = [c]"
| "getSubstitution matched before after (c # d # r) =
     (if c = CHR ''$'' \<and> d = CHR ''$'' then CHR ''$'' # getSubstitution matched before after r
      else if c = CHR ''$'' \<and> d = CHR ''&'' then matched @ getSubstitution matched before after r
      else if c = CHR ''$'' \<and> d = CHR 0x60 then before @ getSubstitution matched before after r
      else if c = CHR ''$'' \<and> d = CHR 0x27 then after @ getSubstitution matched before after r
      else c # getSubstitution matched before after (d # r))"

text \<open>\<^verbatim>\<open>s.replace(pattern, replacement)\<close> with a string pattern: the first occurrence only.\<close>

definition replace :: "string \<Rightarrow> string \<Rightarrow> string \<Rightarrow> string" where
  "replace s pattern replacement =
     (case indexOf s pattern of
        None \<Rightarrow> s
      | Some (before, after) \<Rightarrow> before @ getSubstitution pattern before after replacement @ after)"

text \<open>\<^verbatim>\<open>file.replace(/^dot/, ".")\<close>: the regular expression matches at the start only.\<close>

definition replaceLeadingDot :: "string \<Rightarrow> string" where
  "replaceLeadingDot file = (if startsWith file ''dot'' then ''.'' @ drop 3 file else file)"

section \<open>Command-line arguments\<close>

text \<open>The constants that \<^verbatim>\<open>src/cli.js\<close> reads off \<^verbatim>\<open>process.argv\<close> once, at load time.\<close>

definition YES_ARG :: "string list \<Rightarrow> bool" where
  "YES_ARG argv = (''--yes'' \<in> set argv \<or> ''-y'' \<in> set argv)"

definition MONOREPO_ARG :: "string list \<Rightarrow> bool" where
  "MONOREPO_ARG argv = (''--monorepo'' \<in> set argv \<or> ''-m'' \<in> set argv)"

fun findIndex :: "('a \<Rightarrow> bool) \<Rightarrow> 'a list \<Rightarrow> nat option" where
  "findIndex P [] = None"
| "findIndex P (x # xs) = (if P x then Some 0 else map_option Suc (findIndex P xs))"

definition workspaceFlagIdx :: "string list \<Rightarrow> nat option" where
  "workspaceFlagIdx argv = findIndex (\<lambda>arg. arg = ''-w'') argv"

text \<open>
  \<^verbatim>\<open>a || b || ""\<close>: the first operand that is a non-empty string. The value after \<^verbatim>\<open>-w\<close>
  is \<^verbatim>\<open>undefined\<close> when \<^verbatim>\<open>-w\<close> is the last argument.
\<close>

definition CREATE_WORKSPACE_ARG :: "string list \<Rightarrow> string" where
  "CREATE_WORKSPACE_ARG argv =
     (let byEquals =
            (case List.find (\<lambda>arg. startsWith arg ''--workspace='') argv of
               None \<Rightarrow> None
             | Some arg \<Rightarrow> at (split arg CHR ''='') 1);
          byFlag =
            (case workspaceFlagIdx argv of
               None \<Rightarrow> None
             | Some i \<Rightarrow> at argv (i + 1))
      in case byEquals of
           Some v \<Rightarrow> (if v \<noteq> [] then v else (case byFlag of Some w \<Rightarrow> w | None \<Rightarrow> []))
         | None \<Rightarrow> (case byFlag of Some w \<Rightarrow> w | None \<Rightarrow> []))"

text \<open>\<^verbatim>\<open>find(...)?.split("=")[1] ?? ""\<close>\<close>

definition SCOPE_ARG :: "string list \<Rightarrow> string" where
  "SCOPE_ARG argv =
     (case List.find (\<lambda>arg. startsWith arg ''--scope='') argv of
        None \<Rightarrow> []
      | Some arg \<Rightarrow> (case at (split arg CHR ''='') 1 of None \<Rightarrow> [] | Some v \<Rightarrow> v))"

section \<open>Errors, events and the environment\<close>

text \<open>
  The error objects the program can end with: the two it constructs itself, and the ones
  raised by the runtime (file system, child process, JSON parser), kept opaque.
\<close>

datatype error =
    ScopeRequired \<comment> \<open>\<^verbatim>\<open>new Error("Scope is required")\<close>\<close>
  | ProcessExited "int option" \<comment> \<open>\<^verbatim>\<open>new Error(`Process exited with code ${code}`)\<close>; \<^const>\<open>None\<close> is \<^verbatim>\<open>null\<close>\<close>
  | SystemError string

text \<open>What a child process reports back: the \<^verbatim>\<open>error\<close> event and the \<^verbatim>\<open>exit\<close> event.\<close>

datatype child_event = ChildError error | ChildExit "int option"

datatype level = Log | Info | Warn | Err

datatype json = JString string | JArray "json list"

text \<open>
  Everything the program does to the outside world, in order, each with the answer it got.
\<close>

datatype event =
    Console level string
  | PromptConfirm string "bool option"
  | PromptText string "string option"
  | Readdir string "error + string list"
  | Access string "error option"
  | Stat string "error + bool"
  | ReadFile string "error + string"
  | WriteFile string string "error option"
  | CopyFile string string "error option"
  | Mkdir string "error option"
  | Exec string "child_event list"

text \<open>
  The environment answers every request; an answer may depend on all that happened before
  (the events so far). \<^verbatim>\<open>jsonc_edit t p v\<close> stands for
  \<^verbatim>\<open>jsonc.applyEdits(t, jsonc.modify(t, p, v, MODIFICATION_OPTIONS))\<close> and
  \<^verbatim>\<open>license_field t\<close> for \<^verbatim>\<open>JSON.parse(t).license\<close> (a string, or absent), both of libraries
  outside the repository. \<^verbatim>\<open>TEMPLATE_FILES_DIR\<close> is
  \<^verbatim>\<open>path.join(__filename, "../..", "template-files")\<close>.
\<close>

record env =
  cwd :: string
  TEMPLATE_FILES_DIR :: string
  answer_confirm :: "event list \<Rightarrow> string \<Rightarrow> bool option"
  answer_text :: "event list \<Rightarrow> string \<Rightarrow> string option"
  on_readdir :: "event list \<Rightarrow> string \<Rightarrow> error + string list"
  on_access :: "event list \<Rightarrow> string \<Rightarrow> error option"
  on_stat :: "event list \<Rightarrow> string \<Rightarrow> error + bool"
  on_readFile :: "event list \<Rightarrow> string \<Rightarrow> error + string"
  on_writeFile :: "event list \<Rightarrow> string \<Rightarrow> string \<Rightarrow> error option"
  on_copyFile :: "event list \<Rightarrow> string \<Rightarrow> string \<Rightarrow> error option"
  on_mkdir :: "event list \<Rightarrow> string \<Rightarrow> error option"
  on_exec :: "event list \<Rightarrow> string \<Rightarrow> child_event list"
  jsonc_edit :: "string \<Rightarrow> string list \<Rightarrow> json \<Rightarrow> string"
  license_field :: "string \<Rightarrow> error + string option"

section \<open>Sequential execution\<close>

text \<open>
  A step takes the events so far and returns how it ended together with the events
  extended. \<^verbatim>\<open>await\<close> is \<open>bindM\<close>: a rejection, \<^verbatim>\<open>process.exit\<close> and a promise that never
  settles all cut the rest short.
\<close>

datatype 'a outcome = Ok 'a | Throw error | Exited int | Hangs

type_synonym 'a io = "event list \<Rightarrow> 'a outcome \<times> event list"

definition returnM :: "'a \<Rightarrow> 'a io" where
  "returnM x t = (Ok x, t)"

definition throwM :: "error \<Rightarrow> 'a io" where
  "throwM e t = (Throw e, t)"

definition exitM :: "int \<Rightarrow> 'a io" where
  "exitM c t = (Exited c, t)"

definition bindM :: "'a io \<Rightarrow> ('a \<Rightarrow> 'b io) \<Rightarrow> 'b io" where
  "bindM m f t =
     (case m t of
        (Ok x, t') \<Rightarrow> f x t'
      | (Throw e, t') \<Rightarrow> (Throw e, t')
      | (Exited c, t') \<Rightarrow> (Exited c, t')
      | (Hangs, t') \<Rightarrow> (Hangs, t'))"

definition thenM :: "'a io \<Rightarrow> 'b io \<Rightarrow> 'b io" where
  "thenM m n = bindM m (\<lambda>_. n)"

fun seqM :: "unit io list \<Rightarrow> unit io" where
  "seqM [] = returnM ()"
| "seqM (m # ms) = thenM m (seqM ms)"

text \<open>\<^verbatim>\<open>try { m } catch { h }\<close>\<close>

definition catchM :: "'a io \<Rightarrow> (error \<Rightarrow> 'a io) \<Rightarrow> 'a io" where
  "catchM m h t = (case m t of (Throw e, t') \<Rightarrow> h e t' | (r, t') \<Rightarrow> (r, t'))"

text \<open>
  \<^verbatim>\<open>Promise.all\<close> over operations that were all started: each one runs whatever the others
  do, and the result is the list of their values, or the first failure in list order.
\<close>

fun firstFailure :: "'a outcome \<Rightarrow> 'a list outcome \<Rightarrow> 'a list outcome" where
  "firstFailure (Ok x) (Ok xs) = Ok (x # xs)"
| "firstFailure (Ok x) (Throw e) = Throw e"
| "firstFailure (Ok x) (Exited c) = Exited c"
| "firstFailure (Ok x) Hangs = Hangs"
| "firstFailure (Throw e) r = Throw e"
| "firstFailure (Exited c) r = Exited c"
| "firstFailure Hangs r = Hangs"

fun allM :: "'a io list \<Rightarrow> 'a list io" where
  "allM [] t = (Ok [], t)"
| "allM (m # ms) t =
     (case m t of (r, t') \<Rightarrow> (case allM ms t' of (rs, t'') \<Rightarrow> (firstFailure r rs, t'')))"

definition ofResult :: "error + 'a \<Rightarrow> 'a outcome" where
  "ofResult r = (case r of Inl e \<Rightarrow> Throw e | Inr x \<Rightarrow> Ok x)"

definition ofStatus :: "error option \<Rightarrow> unit outcome" where
  "ofStatus r = (case r of Some e \<Rightarrow> Throw e | None \<Rightarrow> Ok ())"

subsection \<open>Requests to the outside world\<close>

definition console :: "level \<Rightarrow> string \<Rightarrow> unit io" where
  "console l msg t = (Ok (), t @ [Console l msg])"

definition prompts_confirm :: "env \<Rightarrow> string \<Rightarrow> bool option io" where
  "prompts_confirm env message t =
     (let r = answer_confirm env t message in (Ok r, t @ [PromptConfirm message r]))"

definition prompts_text :: "env \<Rightarrow> string \<Rightarrow> string option io" where
  "prompts_text env message t =
     (let r = answer_text env t message in (Ok r, t @ [PromptText message r]))"

definition fs_readdir :: "env \<Rightarrow> string \<Rightarrow> string list io" where
  "fs_readdir env dir t = (let r = on_readdir env t dir in (ofResult r, t @ [Readdir dir r]))"

definition fs_access :: "env \<Rightarrow> string \<Rightarrow> unit io" where
  "fs_access env p t = (let r = on_access env t p in (ofStatus r, t @ [Access p r]))"

definition fs_stat_isFile :: "env \<Rightarrow> string \<Rightarrow> bool io" where
  "fs_stat_isFile env p t = (let r = on_stat env t p in (ofResult r, t @ [Stat p r]))"

definition fs_readFile :: "env \<Rightarrow> string \<Rightarrow> string io" where
  "fs_readFile env p t = (let r = on_readFile env t p in (ofResult r, t @ [ReadFile p r]))"

definition fs_writeFile :: "env \<Rightarrow> string \<Rightarrow> string \<Rightarrow> unit io" where
  "fs_writeFile env p content t =
     (let r = on_writeFile env t p content in (ofStatus r, t @ [WriteFile p content r]))"

definition fs_copyFile :: "env \<Rightarrow> string \<Rightarrow> string \<Rightarrow> unit io" where
  "fs_copyFile env src dst t =
     (let r = on_copyFile env t src dst in (ofStatus r, t @ [CopyFile src dst r]))"

definition fs_mkdir :: "env \<Rightarrow> string \<Rightarrow> unit io" where
  "fs_mkdir env p t = (let r = on_mkdir env t p in (ofStatus r, t @ [Mkdir p r]))"

text \<open>
  \<^verbatim>\<open>path.join(a, b)\<close> for a directory \<open>a\<close> and a relative path \<open>b\<close> that are already in
  normal form: the two, with one separator between them.
\<close>

definition path_join :: "string \<Rightarrow> string \<Rightarrow> string" where
  "path_join a b = a @ ''/'' @ b"

section \<open>Process runner\<close>

text \<open>
  The promise that \<^verbatim>\<open>runCommand\<close> returns and the three pipes it wires up. \<^verbatim>\<open>resolve\<close> and
  \<^verbatim>\<open>reject\<close> settle a pending promise and do nothing to a settled one.
\<close>

datatype promise = Pending | Resolved | Rejected error

record runner =
  settled :: promise
  inPipe_destroyed :: bool
  stdoutPipe_destroyed :: bool
  stdinPipe_destroyed :: bool

definition spawned :: runner where
  "spawned = \<lparr>settled = Pending, inPipe_destroyed = False,
              stdoutPipe_destroyed = False, stdinPipe_destroyed = False\<rparr>"

definition resolve :: "runner \<Rightarrow> runner" where
  "resolve r = (if settled r = Pending then r\<lparr>settled := Resolved\<rparr> else r)"

definition reject :: "error \<Rightarrow> runner \<Rightarrow> runner" where
  "reject e r = (if settled r = Pending then r\<lparr>settled := Rejected e\<rparr> else r)"

definition destroyPipes :: "runner \<Rightarrow> runner" where
  "destroyPipes r =
     r\<lparr>inPipe_destroyed := True, stdoutPipe_destroyed := True, stdinPipe_destroyed := True\<rparr>"

text \<open>The two listeners. The \<^verbatim>\<open>exit\<close> listener has no \<^verbatim>\<open>return\<close> after \<^verbatim>\<open>resolve()\<close>.\<close>

definition onError :: "error \<Rightarrow> runner \<Rightarrow> runner" where
  "onError e r = reject e (destroyPipes r)"

definition onExit :: "int option \<Rightarrow> runner \<Rightarrow> runner" where
  "onExit code r =
     (let r1 = (if code = Some 0 then resolve (destroyPipes r) else r)
      in reject (ProcessExited code) (destroyPipes r1))"

fun deliver :: "runner \<Rightarrow> child_event \<Rightarrow> runner" where
  "deliver r (ChildError e) = onError e r"
| "deliver r (ChildExit code) = onExit code r"

definition awaitPromise :: "promise \<Rightarrow> unit outcome" where
  "awaitPromise p = (case p of Pending \<Rightarrow> Hangs | Resolved \<Rightarrow> Ok () | Rejected e \<Rightarrow> Throw e)"

text \<open>The runner once the child process has reported all its events.\<close>

definition childProcess :: "child_event list \<Rightarrow> runner" where
  "childProcess evs = foldl deliver spawned evs"

definition runCommand :: "env \<Rightarrow> string \<Rightarrow> unit io" where
  "runCommand env command =
     thenM (console Info (''Running command: '' @ command))
       (\<lambda>t. let evs = on_exec env t command
            in (awaitPromise (settled (childProcess evs)), t @ [Exec command evs]))"

section \<open>Argument and prompt resolver\<close>

text \<open>\<^verbatim>\<open>Boolean(x)\<close> on the values a prompt returns (\<^const>\<open>None\<close> is \<^verbatim>\<open>undefined\<close>).\<close>

definition truthyBool :: "bool option \<Rightarrow> bool" where
  "truthyBool v = (case v of None \<Rightarrow> False | Some b \<Rightarrow> b)"

definition truthy :: "string option \<Rightarrow> bool" where
  "truthy v = (case v of None \<Rightarrow> False | Some s \<Rightarrow> s \<noteq> [])"

text \<open>
  The parameter keeps the name the source gives it; the one call passes
  \<^verbatim>\<open>!isCreatingWorkspace\<close>.
\<close>

definition checkCreateMonorepo :: "env \<Rightarrow> string list \<Rightarrow> bool \<Rightarrow> bool io" where
  "checkCreateMonorepo env argv isCreatingWorkspace =
     (if \<not> isCreatingWorkspace then
        thenM (if MONOREPO_ARG argv
               then console Warn ''Ignoring --monorepo flag since creating a workspace''
               else returnM ())
          (returnM False)
      else if MONOREPO_ARG argv then returnM True
      else bindM (prompts_confirm env ''Create monorepo?'')
             (\<lambda>response. returnM (truthyBool response)))"

definition getScope :: "env \<Rightarrow> string list \<Rightarrow> bool \<Rightarrow> string io" where
  "getScope env argv isOptional =
     (if SCOPE_ARG argv \<noteq> [] then
        (if startsWith (SCOPE_ARG argv) ''@'' then returnM (SCOPE_ARG argv)
         else returnM (''@'' @ SCOPE_ARG argv))
      else bindM (prompts_text env (''Scope'' @ (if isOptional then '' (optional)'' else [])))
             (\<lambda>response.
                if \<not> truthy response then
                  (if \<not> isOptional then throwM ScopeRequired else returnM [])
                else case response of
                  None \<Rightarrow> returnM []
                | Some v \<Rightarrow>
                    if trim v = [] \<or> startsWith v ''@'' then returnM (trim v)
                    else returnM (''@'' @ v)))"

text \<open>The result is what the prompt returned when it comes to that: possibly \<^verbatim>\<open>undefined\<close>.\<close>

definition checkCreateWorkspace :: "env \<Rightarrow> string list \<Rightarrow> bool \<Rightarrow> string option io" where
  "checkCreateWorkspace env argv isEmpty =
     (if isEmpty \<and> CREATE_WORKSPACE_ARG argv \<noteq> [] then
        thenM (console Warn ''Ignoring --workspace flag since current directory is empty'')
          (returnM (Some []))
      else
        bindM (catchM (thenM (fs_access env ''./package.json'') (returnM True))
                 (\<lambda>_. returnM False))
          (\<lambda>found.
             if \<not> found then
               (if CREATE_WORKSPACE_ARG argv \<noteq> [] then
                  thenM (console Warn ''Ignoring --workspace flag since no package.json found'')
                    (returnM (Some []))
                else returnM (Some []))
             else if CREATE_WORKSPACE_ARG argv \<noteq> [] then returnM (Some (CREATE_WORKSPACE_ARG argv))
             else prompts_text env ''Workspace to create (e.g. packages/demoLib)''))"

definition isEmptyDirectory :: "env \<Rightarrow> bool io" where
  "isEmptyDirectory env = bindM (fs_readdir env (cwd env)) (\<lambda>files. returnM (length files = 0))"

definition checkEmptyDirectory :: "env \<Rightarrow> string list \<Rightarrow> bool io" where
  "checkEmptyDirectory env argv =
     bindM (isEmptyDirectory env)
       (\<lambda>isEmpty.
          if \<not> isEmpty \<and> CREATE_WORKSPACE_ARG argv = [] then
            bindM (prompts_confirm env ''Current directory is not empty, continue?'')
              (\<lambda>response.
                 if \<not> truthyBool response
                 then thenM (console Log ''Exiting...'') (exitM 0)
                 else returnM isEmpty)
          else returnM isEmpty)"

section \<open>Configuration patcher\<close>

definition patchPackageJson :: "env \<Rightarrow> string \<Rightarrow> unit io" where
  "patchPackageJson env workspace = runCommand env (''npm '' @ workspace @ '' pkg set type=module'')"

text \<open>The list \<^verbatim>\<open>patches\<close> that \<^verbatim>\<open>patchTsconfigJson\<close> builds: pairs of a path and a value.\<close>

definition tsconfigPatches :: "string option \<Rightarrow> bool \<Rightarrow> (string list \<times> json) list" where
  "tsconfigPatches scope skipSetup =
     (if skipSetup then []
      else [([''compilerOptions'', ''outDir''], JString ''dist''),
            ([''include''], JArray [JString ''src''])])
     @ (case scope of
          None \<Rightarrow> []
        | Some s \<Rightarrow>
            if s \<noteq> []
            then [([''compilerOptions'', ''paths'', s @ ''/*''], JArray [JString ''../*/src''])]
            else [])"

definition patchTsconfigJson :: "env \<Rightarrow> string \<Rightarrow> string option \<Rightarrow> bool \<Rightarrow> string" where
  "patchTsconfigJson env original scope skipSetup =
     foldl (\<lambda>tsconfig (p, v). jsonc_edit env tsconfig p v) original (tsconfigPatches scope skipSetup)"

definition eslintPattern :: string where
  \<open>eslintPattern = ''// "import/internal-regex": "^@scope/*",''\<close>

definition eslintReplacement :: "string \<Rightarrow> string" where
  \<open>eslintReplacement scope = ''"import/internal-regex": "^'' @ scope @ ''/*",''\<close>

definition patchEslintImportInternal :: "env \<Rightarrow> string \<Rightarrow> unit io" where
  "patchEslintImportInternal env scope =
     bindM (fs_readFile env (path_join (cwd env) ''.eslintrc.cjs''))
       (\<lambda>eslintConfig.
          fs_writeFile env (path_join (cwd env) ''.eslintrc.cjs'')
            (replace eslintConfig eslintPattern (eslintReplacement scope)))"

definition checkPackageJson :: "env \<Rightarrow> string list \<Rightarrow> string \<Rightarrow> unit io" where
  "checkPackageJson env argv scope =
     catchM
       (seqM [fs_access env ''./package.json'',
              console Info ''package.json found, continuing...'',
              patchPackageJson env []])
       (\<lambda>_. let yesArg = (if YES_ARG argv then ''-y'' else [])
            in seqM [if scope = [] then runCommand env (''npm init '' @ yesArg)
                     else runCommand env (''npm init --scope='' @ scope @ '' '' @ yesArg),
                     patchPackageJson env []])"

text \<open>
  The license read off the root manifest: a string, \<^verbatim>\<open>undefined\<close> when the manifest has
  none, and the empty string after an error was logged.
\<close>

definition getPackageJsonLicense :: "env \<Rightarrow> string \<Rightarrow> string option io" where
  "getPackageJsonLicense env packageJsonPath =
     bindM
       (catchM
          (bindM (fs_readFile env packageJsonPath)
             (\<lambda>rootPackageJson.
                case license_field env rootPackageJson of
                  Inl e \<Rightarrow> throwM e
                | Inr rootLicense \<Rightarrow> returnM (Some rootLicense)))
          (\<lambda>_. thenM
                 (console Err
                    (''There was an error copying license from the root package.json, ''
                     @ ''please check child packages manually if needed''))
                 (returnM None)))
       (\<lambda>returned. case returned of Some rootLicense \<Rightarrow> returnM rootLicense
                                   | None \<Rightarrow> returnM (Some []))"

section \<open>File copier\<close>

definition allFiles :: "env \<Rightarrow> string \<Rightarrow> string list io" where
  "allFiles env dir =
     bindM (fs_readdir env dir)
       (\<lambda>dirContents.
          bindM (allM (map (\<lambda>file. bindM (fs_stat_isFile env (path_join dir file))
                                     (\<lambda>isFile. returnM (if isFile then Some file else None)))
                         dirContents))
            (\<lambda>files. returnM (List.map_filter (\<lambda>file. file) files)))"

definition copyFiles :: "env \<Rightarrow> string \<Rightarrow> string \<Rightarrow> unit io" where
  "copyFiles env fromDir toDir =
     thenM (console Info (''Copying files from '' @ fromDir @ '' to '' @ toDir))
       (bindM (allFiles env fromDir)
          (\<lambda>files.
             thenM (allM (map (\<lambda>file. fs_copyFile env (path_join fromDir file)
                                        (path_join toDir (replaceLeadingDot file)))
                            files))
               (returnM ())))"

section \<open>Orchestrator\<close>

definition COMMON_FILES_DIR :: "env \<Rightarrow> string" where
  "COMMON_FILES_DIR env = path_join (TEMPLATE_FILES_DIR env) ''common''"

definition CODE_FILES_DIR :: "env \<Rightarrow> string" where
  "CODE_FILES_DIR env = path_join (TEMPLATE_FILES_DIR env) ''code''"

definition ROOT_FILES_DIR :: "env \<Rightarrow> string" where
  "ROOT_FILES_DIR env = path_join (TEMPLATE_FILES_DIR env) ''root''"

definition PACKAGE_FILES_DIR :: "env \<Rightarrow> string" where
  "PACKAGE_FILES_DIR env = path_join (TEMPLATE_FILES_DIR env) ''package''"

text \<open>
  The block of \<^verbatim>\<open>preparePackage\<close> that edits the compiler configuration; \<open>scope\<close> is the
  scope resolved by the main flow.
\<close>

definition patchTsconfigFiles :: "env \<Rightarrow> string \<Rightarrow> string \<Rightarrow> string \<Rightarrow> unit io" where
  "patchTsconfigFiles env scope directory workspace =
     (if workspace \<noteq> [] then
        seqM [bindM (fs_readFile env (path_join directory ''tsconfig.build.json''))
                (\<lambda>tsconfigBuildJsonc.
                   fs_writeFile env (path_join directory ''tsconfig.build.json'')
                     (patchTsconfigJson env tsconfigBuildJsonc None False)),
              if scope \<noteq> [] then
                bindM (fs_readFile env (path_join directory ''tsconfig.json''))
                  (\<lambda>tsconfigJsonc.
                     fs_writeFile env (path_join directory ''tsconfig.json'')
                       (patchTsconfigJson env tsconfigJsonc (Some scope) True))
              else returnM ()]
      else
        bindM (fs_readFile env (path_join directory ''tsconfig.json''))
          (\<lambda>tsconfigJsonc.
             fs_writeFile env (path_join directory ''tsconfig.json'')
               (patchTsconfigJson env tsconfigJsonc (Some scope) False)))"

text \<open>The awaited statements of \<^verbatim>\<open>preparePackage\<close>, in the order of the source.\<close>

definition preparePackageSteps ::
  "env \<Rightarrow> string \<Rightarrow> string \<Rightarrow> string \<Rightarrow> string \<Rightarrow> string \<Rightarrow> string option \<Rightarrow> unit io list" where
  \<open>preparePackageSteps env scope directory workspace sourceFile testFile license =
     [
       (case license of
          None \<Rightarrow> returnM ()
        | Some l \<Rightarrow>
            if l \<noteq> [] then runCommand env (''npm '' @ workspace @ '' pkg set license="'' @ l @ ''"'')
            else returnM ()),
       runCommand env (''npm install '' @ workspace @ '' --save-dev typescript eslint''),
       runCommand env (''npm install '' @ workspace @ '' --save-dev vitest vite-tsconfig-paths''),
       copyFiles env (COMMON_FILES_DIR env) directory,
       (if workspace \<noteq> [] then copyFiles env (PACKAGE_FILES_DIR env) directory else returnM ()),
       fs_mkdir env (path_join directory ''src''),
       fs_copyFile env (path_join (CODE_FILES_DIR env) sourceFile) (path_join directory ''src/index.ts''),
       fs_mkdir env (path_join directory ''test''),
       fs_copyFile env (path_join (CODE_FILES_DIR env) testFile)
         (path_join directory ''test/index.test.ts''),
       (let replacer = (if scope = [] then [] else scope @ ''/'')
        in bindM (fs_readFile env (path_join directory ''src/index.ts''))
             (\<lambda>contents.
                fs_writeFile env (path_join directory ''src/index.ts'')
                  (replace contents ''{{SCOPEPREFIX}}'' replacer))),
       patchTsconfigFiles env scope directory workspace,
       runCommand env (''npm '' @ workspace @ '' pkg set scripts.lint="npx eslint ."''),
       (if workspace \<noteq> [] then
          runCommand env
            (''npm '' @ workspace @ '' pkg set scripts.build="tsc --project tsconfig.build.json"'')
        else runCommand env (''npm '' @ workspace @ '' pkg set scripts.build="tsc"'')),
       runCommand env (''npm '' @ workspace @ '' pkg set scripts.test="vitest run"''),
       runCommand env (''npm '' @ workspace @ '' pkg set scripts.test:watch="vitest watch"''),
       runCommand env (''npm '' @ workspace @ '' pkg set main="dist/src/index.js"''),
       runCommand env (''npm '' @ workspace @ '' pkg set types="dist/src/index.d.ts"''),
       patchPackageJson env workspace,
       runCommand env (''npm '' @ workspace @ '' run lint''),
       runCommand env (''npm '' @ workspace @ '' run build''),
       runCommand env (''npm '' @ workspace @ '' run test'')]\<close>

definition preparePackage ::
  "env \<Rightarrow> string \<Rightarrow> string \<Rightarrow> string \<Rightarrow> string \<Rightarrow> string \<Rightarrow> string option \<Rightarrow> unit io" where
  "preparePackage env scope directory workspace sourceFile testFile license =
     seqM (preparePackageSteps env scope directory workspace sourceFile testFile license)"

definition libWorkspace :: string where
  "libWorkspace = ''-w ./packages/lib''"

definition appWorkspace :: string where
  "appWorkspace = ''-w ./packages/app''"

definition libDir :: "env \<Rightarrow> string" where
  "libDir env = path_join (cwd env) ''packages/lib''"

definition appDir :: "env \<Rightarrow> string" where
  "appDir env = path_join (cwd env) ''packages/app''"

definition scopeArg :: "string \<Rightarrow> string" where
  "scopeArg scope = (if scope = [] then [] else ''--scope='' @ scope)"

text \<open>
  The three branches of the main flow; the monorepo branch as the list of its awaited
  statements first.
\<close>

definition monorepoFlowSteps :: "env \<Rightarrow> string \<Rightarrow> string option \<Rightarrow> unit io list" where
  \<open>monorepoFlowSteps env scope rootLicense =
     [
       patchEslintImportInternal env scope,
       runCommand env ''npm install --save-dev typescript @sindresorhus/tsconfig'',
       runCommand env (''npm init -y '' @ libWorkspace @ '' '' @ scopeArg scope),
       preparePackage env scope (libDir env) libWorkspace ''src/index.ts'' ''test/index.test.ts''
         rootLicense,
       runCommand env (''npm init -y '' @ appWorkspace @ '' '' @ scopeArg scope),
       preparePackage env scope (appDir env) appWorkspace ''src/main.ts'' ''test/main.test.ts''
         rootLicense,
       runCommand env ''npm pkg set scripts.build="npm run build -ws"'',
       runCommand env ''npm pkg set scripts.lint="npm run lint -ws"'',
       runCommand env ''npm pkg set scripts.test="npm run test -ws"'',
       runCommand env ''npm run build'',
       runCommand env ''npm run lint'',
       runCommand env ''npm run test'']\<close>

definition monorepoFlow :: "env \<Rightarrow> string \<Rightarrow> string option \<Rightarrow> unit io" where
  "monorepoFlow env scope rootLicense = seqM (monorepoFlowSteps env scope rootLicense)"

definition addWorkspaceFlow :: "env \<Rightarrow> string \<Rightarrow> string \<Rightarrow> string option \<Rightarrow> unit io" where
  "addWorkspaceFlow env scope createWorkspace rootLicense =
     (let workspaceArg = ''-w '' @ createWorkspace
      in seqM [
           runCommand env (''npm init -y '' @ workspaceArg @ '' '' @ scopeArg scope),
           preparePackage env scope (path_join (cwd env) createWorkspace) workspaceArg
             ''src/index.ts'' ''test/index.test.ts'' rootLicense,
           runCommand env ''npm run build'',
           runCommand env ''npm run lint'',
           runCommand env ''npm run test''])"

definition singleFlow :: "env \<Rightarrow> string \<Rightarrow> string option \<Rightarrow> unit io" where
  "singleFlow env scope rootLicense =
     preparePackage env scope (cwd env) [] ''src/index.ts'' ''test/index.test.ts'' rootLicense"

text \<open>
  The main flow, one definition for each state of the orchestrator from the point where
  its decision is taken. \<open>createWorkspace\<close> is the resolved workspace path.
\<close>

definition installRootTooling :: "env \<Rightarrow> unit io" where
  "installRootTooling env =
     seqM [
       copyFiles env (ROOT_FILES_DIR env) (cwd env),
       runCommand env
         (''npm install --save-dev eslint-plugin-prettier eslint-config-prettier ''
          @ ''eslint-config-xo eslint-config-xo-typescript @typescript-eslint/parser ''
          @ ''@typescript-eslint/eslint-plugin ''
          @ ''eslint-plugin-unicorn eslint-plugin-import eslint-import-resolver-typescript''),
       runCommand env ''npm install --save-dev --save-exact prettier'',
       runCommand env ''npm install --save-dev  @sindresorhus/tsconfig'']"

definition stateManifestEnsure ::
  "env \<Rightarrow> string list \<Rightarrow> string option \<Rightarrow> bool \<Rightarrow> string \<Rightarrow> unit io" where
  "stateManifestEnsure env argv createWorkspace isMonorepo scope =
     (let isCreatingWorkspace = truthy createWorkspace
      in thenM (checkPackageJson env argv scope)
          (thenM (if \<not> isCreatingWorkspace then installRootTooling env else returnM ())
            (bindM (getPackageJsonLicense env (path_join (cwd env) ''package.json''))
              (\<lambda>rootLicense.
                 thenM
                   (if isMonorepo then monorepoFlow env scope rootLicense
                    else if isCreatingWorkspace then
                      addWorkspaceFlow env scope
                        (case createWorkspace of None \<Rightarrow> ''undefined'' | Some w \<Rightarrow> w) rootLicense
                    else singleFlow env scope rootLicense)
                   (if \<not> truthy rootLicense \<and> (isMonorepo \<or> isCreatingWorkspace) then
                      console Err
                        (''No license found in root package.json, ''
                         @ ''please check child packages manually if needed'')
                    else returnM ())))))"

definition stateScopeResolve :: "env \<Rightarrow> string list \<Rightarrow> string option \<Rightarrow> bool \<Rightarrow> unit io" where
  "stateScopeResolve env argv createWorkspace isMonorepo =
     (let isCreatingWorkspace = truthy createWorkspace
      in bindM (getScope env argv (\<not> isMonorepo \<and> \<not> isCreatingWorkspace))
           (stateManifestEnsure env argv createWorkspace isMonorepo))"

definition stateMonorepoCheck :: "env \<Rightarrow> string list \<Rightarrow> string option \<Rightarrow> unit io" where
  "stateMonorepoCheck env argv createWorkspace =
     (let isCreatingWorkspace = truthy createWorkspace
      in bindM (checkCreateMonorepo env argv (\<not> isCreatingWorkspace))
           (stateScopeResolve env argv createWorkspace))"

definition stateWorkspaceCheck :: "env \<Rightarrow> string list \<Rightarrow> bool \<Rightarrow> unit io" where
  "stateWorkspaceCheck env argv isEmpty =
     bindM (checkCreateWorkspace env argv isEmpty) (stateMonorepoCheck env argv)"

text \<open>The banner starts with a pictograph, here the four bytes of its UTF-8 encoding.\<close>

definition banner :: string where
  "banner = [CHR 0xF0, CHR 0x9F, CHR 0x94, CHR 0xA8] @ '' @rpappa/create''"

definition main :: "env \<Rightarrow> string list \<Rightarrow> unit io" where
  "main env argv =
     thenM (console Log banner)
       (bindM (checkEmptyDirectory env argv) (stateWorkspaceCheck env argv))"

section \<open>Notions the properties are stated with\<close>

text \<open>All three pipes of a runner are torn down.\<close>

definition pipesDestroyed :: "runner \<Rightarrow> bool" where
  "pipesDestroyed r = (inPipe_destroyed r \<and> stdoutPipe_destroyed r \<and> stdinPipe_destroyed r)"

text \<open>Every event a step adds to the events so far satisfies \<open>P\<close>, however the step ends.\<close>

definition emits :: "(event \<Rightarrow> bool) \<Rightarrow> 'a io \<Rightarrow> bool" where
  "emits P m = (\<forall>t. \<exists>evs. snd (m t) = t @ evs \<and> list_all P evs)"

text \<open>Events that change the disk or start an external command.\<close>

fun mutates :: "event \<Rightarrow> bool" where
  "mutates (WriteFile p c r) = True"
| "mutates (CopyFile s d r) = True"
| "mutates (Mkdir p r) = True"
| "mutates (Exec c evs) = True"
| "mutates e = False"

text \<open>Events that read or write the content of a file.\<close>

fun readsOrWrites :: "event \<Rightarrow> bool" where
  "readsOrWrites (ReadFile p r) = True"
| "readsOrWrites (WriteFile p c r) = True"
| "readsOrWrites e = False"

text \<open>The confirmation prompt of the emptiness check.\<close>

definition emptyQuestion :: string where
  "emptyQuestion = ''Current directory is not empty, continue?''"

fun emptyPrompt :: "event \<Rightarrow> bool" where
  "emptyPrompt (PromptConfirm message r) = (message = emptyQuestion)"
| "emptyPrompt e = False"

text \<open>
  An event is a step on the package with workspace selector \<open>workspace\<close> in directory
  \<open>dir\<close> when it is a package-manager command addressed to that selector, or it creates,
  reads or writes a path inside the directory.
\<close>

definition commandFor :: "string \<Rightarrow> string \<Rightarrow> bool" where
  "commandFor workspace c =
     (startsWith c (''npm '' @ workspace @ '' '')
      \<or> startsWith c (''npm install '' @ workspace @ '' '')
      \<or> startsWith c (''npm init -y '' @ workspace @ '' ''))"

definition inside :: "string \<Rightarrow> string \<Rightarrow> bool" where
  "inside dir p = startsWith p (dir @ ''/'')"

fun stepOf :: "string \<Rightarrow> string \<Rightarrow> event \<Rightarrow> bool" where
  "stepOf workspace dir (Exec c evs) = commandFor workspace c"
| "stepOf workspace dir (Mkdir p r) = inside dir p"
| "stepOf workspace dir (CopyFile s d r) = inside dir d"
| "stepOf workspace dir (ReadFile p r) = inside dir p"
| "stepOf workspace dir (WriteFile p c r) = inside dir p"
| "stepOf workspace dir e = False"

text \<open>A command whose promise resolved: the child's first report is exit code 0.\<close>

fun resolved :: "event \<Rightarrow> bool" where
  "resolved (Exec c (ChildExit (Some code) # evs)) = (code = 0)"
| "resolved e = False"

subsection \<open>Environments for concrete runs\<close>

text \<open>
  A directory that holds one file, a manifest without license, prompts answered with
  yes and with the given text, and commands that all exit with the given code.
\<close>

definition sampleEnv :: "string option \<Rightarrow> int \<Rightarrow> env" where
  "sampleEnv answer code =
     \<lparr>cwd = ''/work'',
      TEMPLATE_FILES_DIR = ''/tool/template-files'',
      answer_confirm = (\<lambda>t message. Some True),
      answer_text = (\<lambda>t message. answer),
      on_readdir = (\<lambda>t dir. Inr [''package.json'']),
      on_access = (\<lambda>t p. None),
      on_stat = (\<lambda>t p. Inr True),
      on_readFile = (\<lambda>t p. Inr ''{}''),
      on_writeFile = (\<lambda>t p content. None),
      on_copyFile = (\<lambda>t src dst. None),
      on_mkdir = (\<lambda>t p. None),
      on_exec = (\<lambda>t command. [ChildExit (Some code)]),
      jsonc_edit = (\<lambda>document p v. document @ ''+'' @ concat p),
      license_field = (\<lambda>document. Inr None)\<rparr>"

text \<open>The question of the scope prompt.\<close>

definition scopeQuestion :: "bool \<Rightarrow> string" where
  "scopeQuestion isOptional = (if isOptional then ''Scope (optional)'' else ''Scope'')"

text \<open>The same with an empty directory: nothing to list and no manifest to access.\<close>

definition emptyDirEnv :: "string option \<Rightarrow> int \<Rightarrow> env" where
  "emptyDirEnv answer code =
     (sampleEnv answer code)
       \<lparr>on_readdir := (\<lambda>t dir. Inr []),
        on_access := (\<lambda>t p. Some (SystemError ''ENOENT''))\<rparr>"

text \<open>The same with every yes/no question answered with no.\<close>

definition decliningEnv :: env where
  "decliningEnv = (sampleEnv None 0)\<lparr>answer_confirm := (\<lambda>t message. Some False)\<rparr>"

text \<open>The same with every file read returning the given text.\<close>

definition eslintEnv :: "string \<Rightarrow> env" where
  "eslintEnv document = (sampleEnv None 0)\<lparr>on_readFile := (\<lambda>t p. Inr document)\<rparr>"

subsection \<open>The compiler-configuration edits, in the words of the specification\<close>

text \<open>Setting the output directory and the include list, once each.\<close>

definition setOutDirAndInclude :: "env \<Rightarrow> string \<Rightarrow> string" where
  "setOutDirAndInclude env document =
     jsonc_edit env
       (jsonc_edit env document [''compilerOptions'', ''outDir''] (JString ''dist''))
       [''include''] (JArray [JString ''src''])"

text \<open>Adding the path mapping of a scope.\<close>

definition addPathMapping :: "env \<Rightarrow> string \<Rightarrow> string \<Rightarrow> string" where
  "addPathMapping env scope document =
     jsonc_edit env document [''compilerOptions'', ''paths'', scope @ ''/*'']
       (JArray [JString ''../*/src''])"

text \<open>
  The reads and writes of compiler configuration that provisioning a package is to make,
  given the text \<open>build\<close> read from the build document and \<open>tsconfig\<close> read from the
  other one: a workspace member gets the two settings in \<^verbatim>\<open>tsconfig.build.json\<close> and, with a
  scope, the mapping in \<^verbatim>\<open>tsconfig.json\<close>; any other package gets all of it in its one
  \<^verbatim>\<open>tsconfig.json\<close>.
\<close>

definition tsconfigEvents :: "env \<Rightarrow> string \<Rightarrow> string \<Rightarrow> string \<Rightarrow> string \<Rightarrow> string \<Rightarrow> event list" where
  "tsconfigEvents env scope directory workspace build tsconfig =
     (if workspace \<noteq> [] then
        [ReadFile (path_join directory ''tsconfig.build.json'') (Inr build),
         WriteFile (path_join directory ''tsconfig.build.json'') (setOutDirAndInclude env build) None]
        @ (if scope \<noteq> [] then
             [ReadFile (path_join directory ''tsconfig.json'') (Inr tsconfig),
              WriteFile (path_join directory ''tsconfig.json'') (addPathMapping env scope tsconfig) None]
           else [])
      else
        [ReadFile (path_join directory ''tsconfig.json'') (Inr tsconfig),
         WriteFile (path_join directory ''tsconfig.json'')
           (if scope \<noteq> [] then addPathMapping env scope (setOutDirAndInclude env tsconfig)
            else setOutDirAndInclude env tsconfig)
           None])"

text \<open>The read and write that put the scope prefix into the source template.\<close>

definition scopePrefixEvents :: "string \<Rightarrow> string \<Rightarrow> string \<Rightarrow> event list" where
  "scopePrefixEvents scope directory contents =
     [ReadFile (path_join directory ''src/index.ts'') (Inr contents),
      WriteFile (path_join directory ''src/index.ts'')
        (replace contents ''{{SCOPEPREFIX}}'' (if scope = [] then [] else scope @ ''/'')) None]"

subsection \<open>A package whose own scripts have run\<close>

fun isExec :: "event \<Rightarrow> bool" where
  "isExec (Exec c evs) = True"
| "isExec e = False"

fun commandOf :: "event \<Rightarrow> string" where
  "commandOf (Exec c evs) = c"
| "commandOf e = []"

text \<open>
  The last three commands among the events are the lint, build and test scripts of the
  package with the given workspace selector, and the promise of each resolved.
\<close>

definition provisioned :: "string \<Rightarrow> event list \<Rightarrow> bool" where
  "provisioned workspace xs =
     (let commands = filter isExec xs; last3 = drop (length commands - 3) commands
      in map commandOf last3 =
           [''npm '' @ workspace @ '' run lint'',
            ''npm '' @ workspace @ '' run build'',
            ''npm '' @ workspace @ '' run test'']
         \<and> list_all resolved last3)"

section \<open>Laws of sequential execution\<close>

lemma bindM_returnM: "bindM (returnM x) f = f x"
  by (rule ext) (simp add: bindM_def returnM_def)

lemma thenM_returnM: "thenM (returnM x) n = n"
  by (simp add: thenM_def bindM_returnM)

lemma bindM_throwM: "bindM (throwM e) f = throwM e"
  by (rule ext) (simp add: bindM_def throwM_def)

lemma bindM_assoc: "bindM (bindM m f) g = bindM m (\<lambda>x. bindM (f x) g)"
  by (rule ext) (simp add: bindM_def split: prod.split outcome.split)

lemma thenM_assoc: "thenM (thenM a b) c = thenM a (thenM b c)"
  by (simp add: thenM_def bindM_assoc)

lemma bindM_unit: "bindM m returnM = m"
  by (rule ext) (simp add: bindM_def returnM_def split: prod.split outcome.split)

lemma seqM_append: "seqM (xs @ ys) = thenM (seqM xs) (seqM ys)"
  by (induction xs) (simp_all add: thenM_returnM thenM_assoc)

section \<open>Process runner\<close>

lemma settled_reject: "settled (reject e r) = (if settled r = Pending then Rejected e else settled r)"
  by (simp add: reject_def)

lemma settled_resolve: "settled (resolve r) = (if settled r = Pending then Resolved else settled r)"
  by (simp add: resolve_def)

lemma settled_destroyPipes: "settled (destroyPipes r) = settled r"
  by (simp add: destroyPipes_def)

lemma settled_deliver:
  "settled (deliver r ev) =
     (if settled r \<noteq> Pending then settled r
      else case ev of ChildError e \<Rightarrow> Rejected e
                    | ChildExit code \<Rightarrow> if code = Some 0 then Resolved else Rejected (ProcessExited code))"
  by (cases ev) (simp_all add: onError_def onExit_def Let_def settled_reject settled_resolve settled_destroyPipes)

lemma settled_foldl_deliver:
  "settled r \<noteq> Pending \<Longrightarrow> settled (foldl deliver r evs) = settled r"
  by (induction evs arbitrary: r) (simp_all add: settled_deliver)

lemma pipesDestroyed_reject: "pipesDestroyed (reject e r) = pipesDestroyed r"
  by (simp add: pipesDestroyed_def reject_def)

lemma pipesDestroyed_resolve: "pipesDestroyed (resolve r) = pipesDestroyed r"
  by (simp add: pipesDestroyed_def resolve_def)

lemma pipesDestroyed_destroyPipes: "pipesDestroyed (destroyPipes r)"
  by (simp add: pipesDestroyed_def destroyPipes_def)

lemma pipesDestroyed_deliver: "pipesDestroyed (deliver r ev)"
  by (cases ev) (simp_all add: onError_def onExit_def Let_def pipesDestroyed_reject pipesDestroyed_resolve pipesDestroyed_destroyPipes)

lemma pipesDestroyed_foldl:
  "pipesDestroyed r \<Longrightarrow> pipesDestroyed (foldl deliver r evs)"
  by (induction evs arbitrary: r) (simp_all add: pipesDestroyed_deliver)

lemma settled_childProcess:
  "settled (childProcess (ev # evs)) =
     (case ev of ChildError e \<Rightarrow> Rejected e
               | ChildExit code \<Rightarrow> if code = Some 0 then Resolved else Rejected (ProcessExited code))"
proof -
  have s: "settled (deliver spawned ev) \<noteq> Pending"
    by (simp add: settled_deliver spawned_def split: child_event.split)
  show ?thesis
    using settled_foldl_deliver [OF s, of evs]
    by (simp add: childProcess_def settled_deliver spawned_def)
qed

lemma runCommand_run:
  "runCommand env command t =
     (awaitPromise (settled (childProcess
        (on_exec env (t @ [Console Info (''Running command: '' @ command)]) command))),
      t @ [Console Info (''Running command: '' @ command),
           Exec command (on_exec env (t @ [Console Info (''Running command: '' @ command)]) command)])"
  by (simp add: runCommand_def thenM_def bindM_def console_def Let_def)

text \<open>
  Claim C4. Whatever the command, the promise of the process runner resolves exactly when
  the first report of the child process is exit code 0; on any other exit code (also
  \<^verbatim>\<open>null\<close>) it rejects with the error that carries the code, on an \<^verbatim>\<open>error\<close> event it
  rejects with that error, and on each of these paths all three pipes end up destroyed.
\<close>

theorem runCommand_settles:
  "on_exec env (t @ [Console Info (''Running command: '' @ command)]) command = ev # evs \<Longrightarrow>
   fst (runCommand env command t) =
     (case ev of
        ChildExit code \<Rightarrow> if code = Some 0 then Ok () else Throw (ProcessExited code)
      | ChildError e \<Rightarrow> Throw e)
   \<and> (fst (runCommand env command t) = Ok () \<longleftrightarrow> ev = ChildExit (Some 0))
   \<and> pipesDestroyed (childProcess (ev # evs))"
proof -
  assume a: "on_exec env (t @ [Console Info (''Running command: '' @ command)]) command = ev # evs"
  have r: "fst (runCommand env command t) =
     (case ev of
        ChildExit code \<Rightarrow> if code = Some 0 then Ok () else Throw (ProcessExited code)
      | ChildError e \<Rightarrow> Throw e)"
    using a by (simp add: runCommand_run settled_childProcess awaitPromise_def split: child_event.split)
  have i: "fst (runCommand env command t) = Ok () \<longleftrightarrow> ev = ChildExit (Some 0)"
    unfolding r by (cases ev) auto
  have p: "pipesDestroyed (childProcess (ev # evs))"
    by (simp add: childProcess_def pipesDestroyed_foldl pipesDestroyed_deliver)
  from r i p show ?thesis by blast
qed

theorem runCommand_settles_witness:
  "fst (runCommand (sampleEnv None 3) ''npm run test'' []) = Throw (ProcessExited (Some 3))
   \<and> fst (runCommand (sampleEnv None 0) ''npm run test'' []) = Ok ()
   \<and> pipesDestroyed (childProcess [ChildExit (Some 3)])"
  using runCommand_settles [of "sampleEnv None 3" "[]" "''npm run test''" "ChildExit (Some 3)" "[]"]
        runCommand_settles [of "sampleEnv None 0" "[]" "''npm run test''" "ChildExit (Some 0)" "[]"]
  by (simp add: sampleEnv_def)

section \<open>Scope resolution\<close>

lemma dropWhile_all: "(\<forall>x\<in>set (dropWhile P v). P x) \<longleftrightarrow> (\<forall>x\<in>set v. P x)"
proof
  assume a: "\<forall>x\<in>set (dropWhile P v). P x"
  have "dropWhile P v = []"
  proof (rule ccontr)
    assume n: "dropWhile P v \<noteq> []"
    then have "\<not> P (hd (dropWhile P v))" by (rule hd_dropWhile)
    moreover have "hd (dropWhile P v) \<in> set (dropWhile P v)" using n by simp
    ultimately show False using a by blast
  qed
  then show "\<forall>x\<in>set v. P x" by (simp add: dropWhile_eq_Nil_conv)
next
  assume "\<forall>x\<in>set v. P x"
  then show "\<forall>x\<in>set (dropWhile P v). P x" by (auto dest: set_dropWhileD)
qed

lemma trim_Nil_iff: "trim v = [] \<longleftrightarrow> list_all isWhiteSpace v"
  by (simp add: trim_def list_all_iff dropWhile_eq_Nil_conv dropWhile_all)

lemma getScope_flag:
  "SCOPE_ARG argv \<noteq> [] \<Longrightarrow>
   getScope env argv isOptional t =
     (Ok (if startsWith (SCOPE_ARG argv) ''@'' then SCOPE_ARG argv else ''@'' @ SCOPE_ARG argv), t)"
  by (simp add: getScope_def returnM_def)

lemma getScope_prompt:
  "SCOPE_ARG argv = [] \<Longrightarrow>
   getScope env argv isOptional t =
     (let a = answer_text env t (scopeQuestion isOptional)
      in ((case a of
             None \<Rightarrow> if isOptional then Ok [] else Throw ScopeRequired
           | Some v \<Rightarrow>
               if v = [] then (if isOptional then Ok [] else Throw ScopeRequired)
               else if list_all isWhiteSpace v then Ok []
               else if startsWith v ''@'' then Ok (trim v)
               else Ok (''@'' @ v)),
          t @ [PromptText (scopeQuestion isOptional) a]))"
  by (auto simp add: getScope_def scopeQuestion_def bindM_def prompts_text_def Let_def returnM_def
      throwM_def truthy_def trim_Nil_iff split: option.split)

text \<open>
  Claim C10. A prompt answer made of white space only is not empty, so it passes the check
  that raises the required-scope error, whether the scope is optional or not, and the scope
  it yields is the empty string. A scope given by the flag is returned as it stands, with
  the marker before it when it has none: it is never trimmed.
\<close>

theorem getScope_whitespace_answer:
  "(SCOPE_ARG argv = [] \<and> answer_text env t (scopeQuestion isOptional) = Some v
      \<and> v \<noteq> [] \<and> list_all isWhiteSpace v \<longrightarrow>
    getScope env argv isOptional t = (Ok [], t @ [PromptText (scopeQuestion isOptional) (Some v)]))
   \<and> (SCOPE_ARG argv \<noteq> [] \<longrightarrow>
    getScope env argv isOptional t =
      (Ok (if startsWith (SCOPE_ARG argv) ''@'' then SCOPE_ARG argv else ''@'' @ SCOPE_ARG argv), t))"
  by (simp add: getScope_flag getScope_prompt)

theorem getScope_whitespace_answer_witness:
  "getScope (sampleEnv (Some ''  '') 0) [] False [] = (Ok [], [PromptText ''Scope'' (Some ''  '')])
   \<and> getScope (sampleEnv None 0) [''--scope= x ''] False [] = (Ok ''@ x '', [])"
  using getScope_whitespace_answer [where argv = "[]" and env = "sampleEnv (Some ''  '') 0"
          and isOptional = False and t = "[]" and v = "''  ''"]
        getScope_whitespace_answer [where argv = "[''--scope= x '']" and env = "sampleEnv None 0"
          and isOptional = False and t = "[]" and v = "[]"]
  by (simp add: SCOPE_ARG_def startsWith_def scopeQuestion_def sampleEnv_def isWhiteSpace_def)

text \<open>
  Claim C6, as the code has it. A non-empty flag value is the scope, unchanged when it
  starts with the marker and with the marker before it otherwise. With no flag value the
  prompt answer decides: an empty or declined answer gives the empty scope where the prompt
  is optional; an answer of white space only gives the empty scope; an answer that starts
  with the marker gives the answer trimmed; any other answer gives the marker followed by
  the answer as typed. For an answer without white space at either end this is the rule
  the claim states.
\<close>

theorem getScope_normalizes:
  "(SCOPE_ARG argv \<noteq> [] \<longrightarrow>
      fst (getScope env argv isOptional t) =
        Ok (if startsWith (SCOPE_ARG argv) ''@'' then SCOPE_ARG argv else ''@'' @ SCOPE_ARG argv))
   \<and> (SCOPE_ARG argv = [] \<and> isOptional \<and> \<not> truthy (answer_text env t (scopeQuestion isOptional)) \<longrightarrow>
      fst (getScope env argv isOptional t) = Ok [])
   \<and> (SCOPE_ARG argv = [] \<and> answer_text env t (scopeQuestion isOptional) = Some v \<and> v \<noteq> [] \<longrightarrow>
      fst (getScope env argv isOptional t) =
        Ok (if list_all isWhiteSpace v then []
            else if startsWith v ''@'' then trim v
            else ''@'' @ v))
   \<and> (SCOPE_ARG argv = [] \<and> answer_text env t (scopeQuestion isOptional) = Some v \<and> v \<noteq> []
        \<and> trim v = v \<longrightarrow>
      fst (getScope env argv isOptional t) = Ok (if startsWith v ''@'' then v else ''@'' @ v))"
proof -
  have w: "trim v = v \<Longrightarrow> v \<noteq> [] \<Longrightarrow> \<not> list_all isWhiteSpace v"
    using trim_Nil_iff [of v] by auto
  show ?thesis
    by (auto simp add: getScope_flag getScope_prompt truthy_def w split: option.splits)
qed

theorem getScope_normalizes_witness:
  "fst (getScope (sampleEnv None 0) [''--scope=foo''] False []) = Ok ''@foo''
   \<and> fst (getScope (sampleEnv None 0) [] True []) = Ok []
   \<and> fst (getScope (sampleEnv (Some '' @bar '') 0) [] False []) = Ok ''@ @bar ''
   \<and> fst (getScope (sampleEnv (Some ''@bar'') 0) [] False []) = Ok ''@bar''"
  using getScope_normalizes [where argv = "[''--scope=foo'']" and env = "sampleEnv None 0"
          and isOptional = False and t = "[]" and v = "[]"]
        getScope_normalizes [where argv = "[]" and env = "sampleEnv None 0"
          and isOptional = True and t = "[]" and v = "[]"]
        getScope_normalizes [where argv = "[]" and env = "sampleEnv (Some '' @bar '') 0"
          and isOptional = False and t = "[]" and v = "'' @bar ''"]
        getScope_normalizes [where argv = "[]" and env = "sampleEnv (Some ''@bar'') 0"
          and isOptional = False and t = "[]" and v = "''@bar''"]
  by (simp add: SCOPE_ARG_def startsWith_def scopeQuestion_def sampleEnv_def isWhiteSpace_def
      truthy_def trim_def)

text \<open>
  The claim as stated fails on prompt answers: white space alone does not get the marker,
  and an answer that starts with the marker is not returned unchanged when white space
  follows it.
\<close>

theorem getScope_trims_answer:
  "fst (getScope (sampleEnv (Some ''  '') 0) [] True []) = Ok []
   \<and> fst (getScope (sampleEnv (Some ''  '') 0) [] True []) \<noteq> Ok ''@  ''
   \<and> fst (getScope (sampleEnv (Some ''@foo '') 0) [] True []) = Ok ''@foo''
   \<and> fst (getScope (sampleEnv (Some ''@foo '') 0) [] True []) \<noteq> Ok ''@foo ''"
  by (simp add: getScope_prompt SCOPE_ARG_def scopeQuestion_def sampleEnv_def isWhiteSpace_def
      startsWith_def trim_def)

section \<open>Decisions of the main flow\<close>

lemma sampleEnv_sel:
  "cwd (sampleEnv a code) = ''/work''"
  "TEMPLATE_FILES_DIR (sampleEnv a code) = ''/tool/template-files''"
  "answer_confirm (sampleEnv a code) t q = Some True"
  "answer_text (sampleEnv a code) t q = a"
  "on_readdir (sampleEnv a code) t p = Inr [''package.json'']"
  "on_access (sampleEnv a code) t p = None"
  "on_stat (sampleEnv a code) t p = Inr True"
  "on_readFile (sampleEnv a code) t p = Inr ''{}''"
  "on_writeFile (sampleEnv a code) t p c = None"
  "on_copyFile (sampleEnv a code) t p p' = None"
  "on_mkdir (sampleEnv a code) t p = None"
  "on_exec (sampleEnv a code) t command = [ChildExit (Some code)]"
  "jsonc_edit (sampleEnv a code) d ks v = d @ ''+'' @ concat ks"
  "license_field (sampleEnv a code) d = Inr None"
  by (simp_all add: sampleEnv_def)


text \<open>
  Claim C1, as the code has it. With no flag value, an empty or declined answer to the
  scope prompt ends the run with the required-scope error exactly when monorepo mode or
  workspace creation was selected; when neither was, the prompt is optional and the run
  goes on to the manifest with the empty scope. A non-empty flag value is the scope (with
  the marker) and nothing is asked: the run goes on from the same events.
\<close>

theorem stateScopeResolve_required:
  "(SCOPE_ARG argv = []
      \<and> \<not> truthy (answer_text env t (scopeQuestion (\<not> isMonorepo \<and> \<not> truthy createWorkspace))) \<longrightarrow>
    stateScopeResolve env argv createWorkspace isMonorepo t =
      (if isMonorepo \<or> truthy createWorkspace then
         (Throw ScopeRequired, t @ [PromptText ''Scope'' (answer_text env t ''Scope'')])
       else
         stateManifestEnsure env argv createWorkspace isMonorepo []
           (t @ [PromptText ''Scope (optional)'' (answer_text env t ''Scope (optional)'')])))
   \<and> (SCOPE_ARG argv \<noteq> [] \<longrightarrow>
    stateScopeResolve env argv createWorkspace isMonorepo t =
      stateManifestEnsure env argv createWorkspace isMonorepo
        (if startsWith (SCOPE_ARG argv) ''@'' then SCOPE_ARG argv else ''@'' @ SCOPE_ARG argv) t)"
  by (auto simp add: stateScopeResolve_def bindM_def getScope_flag getScope_prompt Let_def
      scopeQuestion_def truthy_def split: option.splits)

theorem stateScopeResolve_required_witness:
  "stateScopeResolve (sampleEnv None 0) [] (Some ''packages/new'') False [] =
     (Throw ScopeRequired, [PromptText ''Scope'' None])
   \<and> stateScopeResolve (sampleEnv None 0) [''--scope=foo''] (Some ''packages/new'') False [] =
       stateManifestEnsure (sampleEnv None 0) [''--scope=foo''] (Some ''packages/new'') False ''@foo'' []"
  using stateScopeResolve_required [where argv = "[]" and env = "sampleEnv None 0"
          and createWorkspace = "Some ''packages/new''" and isMonorepo = False and t = "[]"]
        stateScopeResolve_required [where argv = "[''--scope=foo'']" and env = "sampleEnv None 0"
          and createWorkspace = "Some ''packages/new''" and isMonorepo = False and t = "[]"]
  by (simp add: SCOPE_ARG_def startsWith_def scopeQuestion_def sampleEnv_sel truthy_def)

lemma runCommand_sample:
  "runCommand (sampleEnv a code) command t =
     ((if code = 0 then Ok () else Throw (ProcessExited (Some code))),
      t @ [Console Info (''Running command: '' @ command), Exec command [ChildExit (Some code)]])"
  by (simp add: runCommand_run settled_childProcess awaitPromise_def sampleEnv_sel)

text \<open>
  The claim as stated has the two cases the wrong way round: with neither mode selected an
  empty answer lets the run go on to \<^verbatim>\<open>npm init\<close> (which fails here with exit code 1),
  and in monorepo mode the same answer raises the required-scope error.
\<close>

theorem stateScopeResolve_optional_when_single:
  "stateScopeResolve (sampleEnv (Some []) 1) [] (Some []) False [] =
     (Throw (ProcessExited (Some 1)),
      [PromptText ''Scope (optional)'' (Some []),
       Access ''./package.json'' None,
       Console Info ''package.json found, continuing...'',
       Console Info ''Running command: npm  pkg set type=module'',
       Exec ''npm  pkg set type=module'' [ChildExit (Some 1)],
       Console Info ''Running command: npm init '',
       Exec ''npm init '' [ChildExit (Some 1)]])
   \<and> stateScopeResolve (sampleEnv (Some []) 1) [] (Some []) True [] =
     (Throw ScopeRequired, [PromptText ''Scope'' (Some [])])"
  by (simp add: stateScopeResolve_def getScope_prompt SCOPE_ARG_def scopeQuestion_def truthy_def
      bindM_def thenM_def stateManifestEnsure_def checkPackageJson_def catchM_def
      patchPackageJson_def runCommand_sample fs_access_def console_def ofStatus_def YES_ARG_def
      Let_def sampleEnv_sel)

text \<open>
  Claim C7. When a workspace is being created (the resolved workspace path is not empty)
  the monorepo decision is false, nothing is asked, and the only event is the warning that
  is printed when the monorepo flag was given. Otherwise the decision is true when the flag
  was given, and else the answer to the yes/no prompt, a declined prompt counting as no.
\<close>

theorem stateMonorepoCheck_decides:
  "stateMonorepoCheck env argv createWorkspace t =
     (if truthy createWorkspace then
        stateScopeResolve env argv createWorkspace False
          (if MONOREPO_ARG argv
           then t @ [Console Warn ''Ignoring --monorepo flag since creating a workspace'']
           else t)
      else if MONOREPO_ARG argv then stateScopeResolve env argv createWorkspace True t
      else
        stateScopeResolve env argv createWorkspace
          (truthyBool (answer_confirm env t ''Create monorepo?''))
          (t @ [PromptConfirm ''Create monorepo?'' (answer_confirm env t ''Create monorepo?'')]))"
  by (simp add: stateMonorepoCheck_def checkCreateMonorepo_def bindM_def thenM_def returnM_def
      console_def prompts_confirm_def Let_def)

theorem stateMonorepoCheck_decides_witness:
  "stateMonorepoCheck (sampleEnv None 0) [''-m''] (Some ''packages/new'') [] =
     stateScopeResolve (sampleEnv None 0) [''-m''] (Some ''packages/new'') False
       [Console Warn ''Ignoring --monorepo flag since creating a workspace'']
   \<and> stateMonorepoCheck (sampleEnv None 0) [] (Some []) [] =
     stateScopeResolve (sampleEnv None 0) [] (Some []) True [PromptConfirm ''Create monorepo?'' (Some True)]"
  using stateMonorepoCheck_decides [where argv = "[''-m'']" and env = "sampleEnv None 0"
          and createWorkspace = "Some ''packages/new''" and t = "[]"]
        stateMonorepoCheck_decides [where argv = "[]" and env = "sampleEnv None 0"
          and createWorkspace = "Some []" and t = "[]"]
  by (simp add: MONOREPO_ARG_def truthy_def truthyBool_def sampleEnv_sel)

text \<open>
  Claim C8. Provided an empty directory holds no manifest, the resolved workspace path is
  empty whenever the directory is empty (with a warning when a flag value was given) and
  whenever the manifest cannot be accessed; in a non-empty directory with a manifest it is
  the flag value when there is one, and else what the free-text prompt returns.
\<close>

theorem checkCreateWorkspace_resolves:
  "(isEmpty \<longrightarrow> on_access env t ''./package.json'' \<noteq> None) \<Longrightarrow>
   (isEmpty \<longrightarrow>
      fst (checkCreateWorkspace env argv isEmpty t) = Ok (Some [])
      \<and> (CREATE_WORKSPACE_ARG argv \<noteq> [] \<longrightarrow>
           snd (checkCreateWorkspace env argv isEmpty t) =
             t @ [Console Warn ''Ignoring --workspace flag since current directory is empty'']))
   \<and> (on_access env t ''./package.json'' \<noteq> None \<longrightarrow>
      fst (checkCreateWorkspace env argv isEmpty t) = Ok (Some []))
   \<and> (\<not> isEmpty \<and> on_access env t ''./package.json'' = None \<and> CREATE_WORKSPACE_ARG argv \<noteq> [] \<longrightarrow>
      checkCreateWorkspace env argv isEmpty t =
        (Ok (Some (CREATE_WORKSPACE_ARG argv)), t @ [Access ''./package.json'' None]))
   \<and> (\<not> isEmpty \<and> on_access env t ''./package.json'' = None \<and> CREATE_WORKSPACE_ARG argv = [] \<longrightarrow>
      checkCreateWorkspace env argv isEmpty t =
        (Ok (answer_text env (t @ [Access ''./package.json'' None])
               ''Workspace to create (e.g. packages/demoLib)''),
         t @ [Access ''./package.json'' None,
              PromptText ''Workspace to create (e.g. packages/demoLib)''
                (answer_text env (t @ [Access ''./package.json'' None])
                   ''Workspace to create (e.g. packages/demoLib)'')]))"
  by (auto simp add: checkCreateWorkspace_def bindM_def thenM_def catchM_def returnM_def
      console_def fs_access_def prompts_text_def ofStatus_def Let_def split: option.splits)

theorem checkCreateWorkspace_resolves_witness:
  "fst (checkCreateWorkspace (emptyDirEnv None 0) [''-w'', ''packages/new''] True []) = Ok (Some [])
   \<and> snd (checkCreateWorkspace (emptyDirEnv None 0) [''-w'', ''packages/new''] True []) =
       [Console Warn ''Ignoring --workspace flag since current directory is empty'']
   \<and> checkCreateWorkspace (sampleEnv None 0) [''--workspace=packages/new''] False [] =
       (Ok (Some ''packages/new''), [Access ''./package.json'' None])
   \<and> checkCreateWorkspace (sampleEnv (Some ''packages/typed'') 0) [] False [] =
       (Ok (Some ''packages/typed''),
        [Access ''./package.json'' None,
         PromptText ''Workspace to create (e.g. packages/demoLib)'' (Some ''packages/typed'')])"
  using checkCreateWorkspace_resolves [where isEmpty = True and env = "emptyDirEnv None 0"
          and argv = "[''-w'', ''packages/new'']" and t = "[]"]
        checkCreateWorkspace_resolves [where isEmpty = False and env = "sampleEnv None 0"
          and argv = "[''--workspace=packages/new'']" and t = "[]"]
        checkCreateWorkspace_resolves [where isEmpty = False
          and env = "sampleEnv (Some ''packages/typed'') 0" and argv = "[]" and t = "[]"]
  by (simp add: CREATE_WORKSPACE_ARG_def workspaceFlagIdx_def startsWith_def sampleEnv_sel
      emptyDirEnv_def)

section \<open>Events a step can add\<close>

lemma emitsI: "(\<And>t. \<exists>evs. snd (m t) = t @ evs \<and> list_all P evs) \<Longrightarrow> emits P m"
  by (simp add: emits_def)

lemma emitsD: "emits P m \<Longrightarrow> \<exists>evs. snd (m t) = t @ evs \<and> list_all P evs"
  by (simp add: emits_def)

lemma emits_returnM: "emits P (returnM x)"
  by (simp add: emits_def returnM_def)

lemma emits_throwM: "emits P (throwM e)"
  by (simp add: emits_def throwM_def)

lemma emits_exitM: "emits P (exitM c)"
  by (simp add: emits_def exitM_def)

lemma emits_bindM:
  assumes m: "emits P m" and f: "\<And>x. emits P (f x)"
  shows "emits P (bindM m f)"
proof (rule emitsI)
  fix t
  obtain evs where e: "snd (m t) = t @ evs" "list_all P evs"
    using emitsD [OF m] by blast
  obtain r t' where r: "m t = (r, t')" by (cases "m t")
  with e have t': "t' = t @ evs" by simp
  show "\<exists>evs. snd (bindM m f t) = t @ evs \<and> list_all P evs"
  proof (cases r)
    case (Ok x)
    obtain evs' where "snd (f x t') = t' @ evs'" "list_all P evs'"
      using emitsD [OF f] by blast
    with Ok r t' e show ?thesis by (simp add: bindM_def)
  qed (use r t' e in \<open>simp_all add: bindM_def\<close>)
qed

lemma emits_thenM: "emits P m \<Longrightarrow> emits P n \<Longrightarrow> emits P (thenM m n)"
  by (simp add: thenM_def emits_bindM)

lemma emits_seqM_Nil: "emits P (seqM [])"
  by (simp add: emits_returnM)

lemma emits_seqM_Cons: "emits P m \<Longrightarrow> emits P (seqM ms) \<Longrightarrow> emits P (seqM (m # ms))"
  by (simp add: emits_thenM)

lemma emits_catchM:
  assumes m: "emits P m" and h: "\<And>e. emits P (h e)"
  shows "emits P (catchM m h)"
proof (rule emitsI)
  fix t
  obtain evs where e: "snd (m t) = t @ evs" "list_all P evs"
    using emitsD [OF m] by blast
  obtain r t' where r: "m t = (r, t')" by (cases "m t")
  with e have t': "t' = t @ evs" by simp
  show "\<exists>evs. snd (catchM m h t) = t @ evs \<and> list_all P evs"
  proof (cases r)
    case (Throw x)
    obtain evs' where "snd (h x t') = t' @ evs'" "list_all P evs'"
      using emitsD [OF h] by blast
    with Throw r t' e show ?thesis by (simp add: catchM_def)
  qed (use r t' e in \<open>simp_all add: catchM_def\<close>)
qed

lemma emits_allM:
  assumes "\<And>m. m \<in> set ms \<Longrightarrow> emits P m"
  shows "emits P (allM ms)"
  using assms
proof (induction ms)
  case Nil
  show ?case by (simp add: emits_def)
next
  case (Cons m ms)
  have m: "emits P m" and ms: "emits P (allM ms)"
    using Cons by simp_all
  show ?case
  proof (rule emitsI)
    fix t
    obtain evs where e: "snd (m t) = t @ evs" "list_all P evs"
      using emitsD [OF m] by blast
    obtain evs' where e': "snd (allM ms (t @ evs)) = (t @ evs) @ evs'" "list_all P evs'"
      using emitsD [OF ms] by blast
    from e e' show "\<exists>evs. snd (allM (m # ms) t) = t @ evs \<and> list_all P evs"
      by (auto simp add: split_beta)
  qed
qed

lemma emits_allM_map: "(\<And>x. emits P (f x)) \<Longrightarrow> emits P (allM (map f xs))"
  by (rule emits_allM) auto

lemma emits_if: "emits P a \<Longrightarrow> emits P b \<Longrightarrow> emits P (if c then a else b)"
  by simp

lemma emits_case_option:
  "emits P a \<Longrightarrow> (\<And>x. emits P (f x)) \<Longrightarrow> emits P (case v of None \<Rightarrow> a | Some x \<Rightarrow> f x)"
  by (cases v) simp_all

lemma emits_case_sum:
  "(\<And>x. emits P (f x)) \<Longrightarrow> (\<And>x. emits P (g x)) \<Longrightarrow> emits P (case v of Inl x \<Rightarrow> f x | Inr x \<Rightarrow> g x)"
  by (cases v) simp_all

lemma emits_console: "P (Console l msg) \<Longrightarrow> emits P (console l msg)"
  by (simp add: emits_def console_def)

lemma emits_prompts_confirm: "(\<And>r. P (PromptConfirm q r)) \<Longrightarrow> emits P (prompts_confirm env q)"
  by (simp add: emits_def prompts_confirm_def Let_def)

lemma emits_prompts_text: "(\<And>r. P (PromptText q r)) \<Longrightarrow> emits P (prompts_text env q)"
  by (simp add: emits_def prompts_text_def Let_def)

lemma emits_fs_readdir: "(\<And>r. P (Readdir p r)) \<Longrightarrow> emits P (fs_readdir env p)"
  by (simp add: emits_def fs_readdir_def Let_def)

lemma emits_fs_access: "(\<And>r. P (Access p r)) \<Longrightarrow> emits P (fs_access env p)"
  by (simp add: emits_def fs_access_def Let_def)

lemma emits_fs_stat_isFile: "(\<And>r. P (Stat p r)) \<Longrightarrow> emits P (fs_stat_isFile env p)"
  by (simp add: emits_def fs_stat_isFile_def Let_def)

lemma emits_fs_readFile: "(\<And>r. P (ReadFile p r)) \<Longrightarrow> emits P (fs_readFile env p)"
  by (simp add: emits_def fs_readFile_def Let_def)

lemma emits_fs_writeFile: "(\<And>r. P (WriteFile p c r)) \<Longrightarrow> emits P (fs_writeFile env p c)"
  by (simp add: emits_def fs_writeFile_def Let_def)

lemma emits_fs_copyFile: "(\<And>r. P (CopyFile s d r)) \<Longrightarrow> emits P (fs_copyFile env s d)"
  by (simp add: emits_def fs_copyFile_def Let_def)

lemma emits_fs_mkdir: "(\<And>r. P (Mkdir p r)) \<Longrightarrow> emits P (fs_mkdir env p)"
  by (simp add: emits_def fs_mkdir_def Let_def)

lemma emits_runCommand:
  "P (Console Info (''Running command: '' @ c)) \<Longrightarrow> (\<And>evs. P (Exec c evs)) \<Longrightarrow>
   emits P (runCommand env c)"
  by (simp add: emits_def runCommand_run)

lemmas emits_rules =
  emits_returnM emits_throwM emits_exitM emits_bindM emits_thenM emits_seqM_Nil emits_seqM_Cons
  emits_catchM emits_allM_map emits_if emits_case_option emits_case_sum emits_console
  emits_prompts_confirm emits_prompts_text emits_fs_readdir emits_fs_access emits_fs_stat_isFile
  emits_fs_readFile emits_fs_writeFile emits_fs_copyFile emits_fs_mkdir emits_runCommand

lemma emits_copyFiles:
  "(\<And>msg. P (Console Info msg)) \<Longrightarrow> (\<And>p r. P (Readdir p r)) \<Longrightarrow> (\<And>p r. P (Stat p r)) \<Longrightarrow>
   (\<And>s f r. P (CopyFile s (path_join toDir f) r)) \<Longrightarrow>
   emits P (copyFiles env fromDir toDir)"
  unfolding copyFiles_def allFiles_def
  by (intro emits_rules) simp_all


lemma emits_preparePackage:
  assumes "\<And>msg. P (Console Info msg)"
    and "\<And>p r. P (Readdir p r)"
    and "\<And>p r. P (Stat p r)"
    and "\<And>c evs. commandFor workspace c \<Longrightarrow> P (Exec c evs)"
    and "\<And>f r. P (Mkdir (path_join directory f) r)"
    and "\<And>s f r. P (CopyFile s (path_join directory f) r)"
    and "\<And>f r. P (ReadFile (path_join directory f) r)"
    and "\<And>f c r. P (WriteFile (path_join directory f) c r)"
  shows "emits P (preparePackage env scope directory workspace sourceFile testFile license)"
  unfolding preparePackage_def preparePackageSteps_def patchTsconfigFiles_def patchPackageJson_def
    Let_def
  by (intro emits_rules emits_copyFiles assms) (simp_all add: commandFor_def startsWith_def)

section \<open>Emptiness check\<close>

lemma emits_rest_no_emptyPrompt:
  "emits (\<lambda>e. \<not> emptyPrompt e) (stateWorkspaceCheck env argv isEmpty)"
  unfolding stateWorkspaceCheck_def checkCreateWorkspace_def stateMonorepoCheck_def
    checkCreateMonorepo_def stateScopeResolve_def getScope_def stateManifestEnsure_def
    checkPackageJson_def patchPackageJson_def installRootTooling_def getPackageJsonLicense_def
    monorepoFlow_def monorepoFlowSteps_def addWorkspaceFlow_def singleFlow_def
    patchEslintImportInternal_def Let_def
  by (intro emits_rules emits_copyFiles emits_preparePackage) (simp_all add: emptyQuestion_def)

lemma main_run:
  "main env argv [] =
     (let t0 = [Console Log banner];
          files = on_readdir env t0 (cwd env);
          t1 = t0 @ [Readdir (cwd env) files]
      in case files of
           Inl e \<Rightarrow> (Throw e, t1)
         | Inr fs \<Rightarrow>
             if fs \<noteq> [] \<and> CREATE_WORKSPACE_ARG argv = [] then
               (let ans = answer_confirm env t1 emptyQuestion;
                    t2 = t1 @ [PromptConfirm emptyQuestion ans]
                in if \<not> truthyBool ans then (Exited 0, t2 @ [Console Log ''Exiting...''])
                   else stateWorkspaceCheck env argv False t2)
             else stateWorkspaceCheck env argv (fs = []) t1)"
  by (simp add: main_def checkEmptyDirectory_def isEmptyDirectory_def thenM_def bindM_def
      console_def fs_readdir_def prompts_confirm_def returnM_def exitM_def ofResult_def Let_def
      emptyQuestion_def split: sum.split)

lemma no_emptyPrompt_rest:
  "list_ex emptyPrompt (snd (stateWorkspaceCheck env argv isEmpty t)) = list_ex emptyPrompt t"
proof -
  obtain evs where "snd (stateWorkspaceCheck env argv isEmpty t) = t @ evs"
    "list_all (\<lambda>e. \<not> emptyPrompt e) evs"
    using emitsD [OF emits_rest_no_emptyPrompt] by blast
  then show ?thesis by (auto simp add: list_ex_iff list_all_iff)
qed

text \<open>
  Claim C5. In a run of the whole program the confirmation prompt of the emptiness check
  is shown exactly when the listing of the working directory is not empty and no workspace
  path was given by flag. When it is shown and the answer is no (or the prompt is
  declined), the process exits with code 0 after four events: the banner, the listing, the
  prompt and the farewell line; none of them writes a file or starts a command.
\<close>

theorem main_empty_directory_prompt:
  "(list_ex emptyPrompt (snd (main env argv [])) \<longleftrightarrow>
      (case on_readdir env [Console Log banner] (cwd env) of
         Inl e \<Rightarrow> False
       | Inr files \<Rightarrow> files \<noteq> [] \<and> CREATE_WORKSPACE_ARG argv = []))
   \<and> (list_ex emptyPrompt (snd (main env argv []))
        \<and> \<not> truthyBool (answer_confirm env
              [Console Log banner,
               Readdir (cwd env) (on_readdir env [Console Log banner] (cwd env))]
              emptyQuestion) \<longrightarrow>
      main env argv [] =
        (Exited 0,
         [Console Log banner,
          Readdir (cwd env) (on_readdir env [Console Log banner] (cwd env)),
          PromptConfirm emptyQuestion
            (answer_confirm env
               [Console Log banner,
                Readdir (cwd env) (on_readdir env [Console Log banner] (cwd env))]
               emptyQuestion),
          Console Log ''Exiting...''])
      \<and> \<not> list_ex mutates (snd (main env argv [])))"
  by (auto simp add: main_run Let_def no_emptyPrompt_rest emptyQuestion_def split: sum.splits)

theorem main_empty_directory_prompt_witness:
  "list_ex emptyPrompt (snd (main decliningEnv [] []))
   \<and> main decliningEnv [] [] =
       (Exited 0,
        [Console Log banner,
         Readdir ''/work'' (Inr [''package.json'']),
         PromptConfirm emptyQuestion (Some False),
         Console Log ''Exiting...''])
   \<and> \<not> list_ex mutates (snd (main decliningEnv [] []))"
  using main_empty_directory_prompt [where env = decliningEnv and argv = "[]"]
  by (simp add: decliningEnv_def sampleEnv_def CREATE_WORKSPACE_ARG_def workspaceFlagIdx_def
      truthyBool_def)

section \<open>Substring edit of the lint configuration\<close>

lemma indexOf_Some: "indexOf s p = Some (b, a) \<Longrightarrow> s = b @ p @ a"
proof (induction s arbitrary: b a)
  case Nil
  then show ?case by (simp split: if_splits)
next
  case (Cons x xs)
  show ?case
  proof (cases "prefix p (x # xs)")
    case True
    with Cons.prems have ba: "b = []" "a = drop (length p) (x # xs)" by simp_all
    from True have "p @ drop (length p) (x # xs) = x # xs" by (auto simp add: prefix_def)
    with ba show ?thesis by simp
  next
    case False
    with Cons.prems obtain b' where "indexOf xs p = Some (b', a)" "b = x # b'"
      by (auto split: option.splits)
    with Cons.IH show ?thesis by simp
  qed
qed

lemma indexOf_None: "indexOf s p = None \<Longrightarrow> s \<noteq> b @ p @ a"
proof (induction s arbitrary: b)
  case Nil
  then show ?case by (auto split: if_splits)
next
  case (Cons x xs)
  from Cons.prems have np: "\<not> prefix p (x # xs)" and n: "indexOf xs p = None"
    by (auto split: if_splits option.splits)
  show ?case
  proof (cases b)
    case Nil
    with np show ?thesis by (auto simp add: prefix_def)
  next
    case (Cons y ys)
    with Cons.IH [OF n, of ys] show ?thesis by auto
  qed
qed

lemma indexOf_first:
  "indexOf s p = Some (b, a) \<Longrightarrow> s = b' @ p @ a' \<Longrightarrow> length b \<le> length b'"
proof (induction s arbitrary: b b')
  case Nil
  then show ?case by (auto split: if_splits)
next
  case (Cons x xs)
  show ?case
  proof (cases "prefix p (x # xs)")
    case True
    with Cons.prems(1) have "b = []" by simp
    then show ?thesis by simp
  next
    case False
    with Cons.prems(1) obtain c where c: "indexOf xs p = Some (c, a)" "b = x # c"
      by (auto split: option.splits)
    from False Cons.prems(2) obtain y ys where b': "b' = y # ys"
      by (cases b') (auto simp add: prefix_def)
    with Cons.prems(2) have "xs = ys @ p @ a'" by simp
    with Cons.IH [OF c(1)] c b' show ?thesis by simp
  qed
qed

lemma getSubstitution_plain:
  "CHR ''$'' \<notin> set r \<Longrightarrow> getSubstitution m b a r = r"
  by (induction m b a r rule: getSubstitution.induct) auto

lemma replace_absent: "\<not> (\<exists>b a. s = b @ p @ a) \<Longrightarrow> replace s p r = s"
  by (cases "indexOf s p") (auto simp add: replace_def dest: indexOf_Some)

lemma replace_present:
  assumes "s = b @ p @ a" and "CHR ''$'' \<notin> set r"
  shows "\<exists>b' a'. s = b' @ p @ a' \<and> length b' \<le> length b \<and> replace s p r = b' @ r @ a'"
proof (cases "indexOf s p")
  case None
  with assms(1) show ?thesis using indexOf_None by blast
next
  case (Some ba)
  obtain b' a' where ba: "ba = (b', a')" by (cases ba)
  with Some have i: "indexOf s p = Some (b', a')" by simp
  have "s = b' @ p @ a'" using indexOf_Some [OF i] .
  moreover have "length b' \<le> length b" using indexOf_first [OF i assms(1)] .
  moreover have "replace s p r = b' @ r @ a'"
    using i assms(2) by (simp add: replace_def getSubstitution_plain)
  ultimately show ?thesis by blast
qed

lemma eslintReplacement_plain: "CHR ''$'' \<notin> set scope \<Longrightarrow> CHR ''$'' \<notin> set (eslintReplacement scope)"
  by (simp add: eslintReplacement_def)

lemma eslint_edit_absent:
  "\<not> (\<exists>b a. eslintConfig = b @ eslintPattern @ a) \<Longrightarrow>
   replace eslintConfig eslintPattern (eslintReplacement scope) = eslintConfig"
  by (rule replace_absent)

lemma eslint_edit_present:
  "eslintConfig = b @ eslintPattern @ a \<Longrightarrow> CHR ''$'' \<notin> set scope \<Longrightarrow>
   \<exists>b' a'. eslintConfig = b' @ eslintPattern @ a' \<and> length b' \<le> length b
     \<and> replace eslintConfig eslintPattern (eslintReplacement scope) =
         b' @ eslintReplacement scope @ a'"
  by (rule replace_present) (simp_all add: eslintReplacement_plain)

lemma patchEslintImportInternal_run:
  "patchEslintImportInternal env scope t =
     (let p = path_join (cwd env) ''.eslintrc.cjs''; r = on_readFile env t p
      in case r of
           Inl e \<Rightarrow> (Throw e, t @ [ReadFile p r])
         | Inr eslintConfig \<Rightarrow>
             (let edited = replace eslintConfig eslintPattern (eslintReplacement scope);
                  w = on_writeFile env (t @ [ReadFile p r]) p edited
              in (ofStatus w, t @ [ReadFile p r, WriteFile p edited w])))"
  by (simp add: patchEslintImportInternal_def bindM_def fs_readFile_def fs_writeFile_def Let_def
      ofResult_def split: sum.split)

text \<open>
  Claim C9. The edit leaves a document without the commented pattern as it is
  (\<open>eslint_edit_absent\<close>), and for a scope without a dollar sign it replaces the first
  occurrence of the pattern by the rule for that scope (\<open>eslint_edit_present\<close>). A dollar
  sign in the scope is read as a replacement pattern: with the scope \<^verbatim>\<open>@$$\<close> and a document
  that is the commented line, the line written has one dollar sign where the rule for
  that scope has two.
\<close>

theorem patchEslintImportInternal_dollar_scope:
  \<open>patchEslintImportInternal (eslintEnv eslintPattern) ''@$$'' [] =
     (Ok (),
      [ReadFile ''/work/.eslintrc.cjs'' (Inr eslintPattern),
       WriteFile ''/work/.eslintrc.cjs'' ''"import/internal-regex": "^@$/*",'' None])
   \<and> eslintReplacement ''@$$'' = ''"import/internal-regex": "^@$$/*",''\<close>
  by (simp add: patchEslintImportInternal_run eslintEnv_def sampleEnv_sel path_join_def ofStatus_def
      replace_def eslintPattern_def eslintReplacement_def Let_def)

section \<open>Compiler configuration of a package\<close>

lemma bindM_Ok:
  "bindM m f t = (Ok y, t') \<Longrightarrow> \<exists>x t1. m t = (Ok x, t1) \<and> f x t1 = (Ok y, t')"
  by (cases "m t") (auto simp add: bindM_def split: outcome.splits)

lemma thenM_Ok:
  "thenM m n t = (Ok y, t') \<Longrightarrow> \<exists>x t1. m t = (Ok x, t1) \<and> n t1 = (Ok y, t')"
  unfolding thenM_def by (rule bindM_Ok)

lemma fs_readFile_Ok:
  "fs_readFile env p t = (Ok c, t') \<Longrightarrow> t' = t @ [ReadFile p (Inr c)]"
  by (cases "on_readFile env t p") (auto simp add: fs_readFile_def Let_def ofResult_def)

lemma fs_writeFile_Ok:
  "fs_writeFile env p c t = (Ok u, t') \<Longrightarrow> t' = t @ [WriteFile p c None]"
  by (cases "on_writeFile env t p c") (auto simp add: fs_writeFile_def Let_def ofStatus_def)

lemma read_then_write_Ok:
  assumes "bindM (fs_readFile env p) (\<lambda>c. fs_writeFile env q (g c)) t = (Ok u, t')"
  shows "\<exists>c. t' = t @ [ReadFile p (Inr c), WriteFile q (g c) None]"
proof -
  from bindM_Ok [OF assms] obtain c t1 where
    r: "fs_readFile env p t = (Ok c, t1)" and w: "fs_writeFile env q (g c) t1 = (Ok u, t')"
    by blast
  from fs_readFile_Ok [OF r] fs_writeFile_Ok [OF w] show ?thesis by simp
qed

lemma patchTsconfigJson_build: "patchTsconfigJson env build None False = setOutDirAndInclude env build"
  by (simp add: patchTsconfigJson_def tsconfigPatches_def setOutDirAndInclude_def)

lemma patchTsconfigJson_paths:
  "scope \<noteq> [] \<Longrightarrow> patchTsconfigJson env tsconfig (Some scope) True = addPathMapping env scope tsconfig"
  by (simp add: patchTsconfigJson_def tsconfigPatches_def addPathMapping_def)

lemma patchTsconfigJson_single:
  "patchTsconfigJson env tsconfig (Some scope) False =
     (if scope \<noteq> [] then addPathMapping env scope (setOutDirAndInclude env tsconfig)
      else setOutDirAndInclude env tsconfig)"
  by (simp add: patchTsconfigJson_def tsconfigPatches_def addPathMapping_def setOutDirAndInclude_def)

lemma patchTsconfigFiles_Ok:
  assumes "patchTsconfigFiles env scope directory workspace t = (Ok u, t')"
  shows "\<exists>build tsconfig. t' = t @ tsconfigEvents env scope directory workspace build tsconfig"
proof (cases "workspace \<noteq> []")
  case False
  with assms read_then_write_Ok show ?thesis
    by (fastforce simp add: patchTsconfigFiles_def tsconfigEvents_def patchTsconfigJson_single)
next
  case ws: True
  with assms have s: "thenM (bindM (fs_readFile env (path_join directory ''tsconfig.build.json''))
                (\<lambda>tsconfigBuildJsonc.
                   fs_writeFile env (path_join directory ''tsconfig.build.json'')
                     (patchTsconfigJson env tsconfigBuildJsonc None False)))
       (if scope \<noteq> [] then
                bindM (fs_readFile env (path_join directory ''tsconfig.json''))
                  (\<lambda>tsconfigJsonc.
                     fs_writeFile env (path_join directory ''tsconfig.json'')
                       (patchTsconfigJson env tsconfigJsonc (Some scope) True))
              else returnM ()) t = (Ok u, t')"
    by (simp add: patchTsconfigFiles_def thenM_def bindM_unit)
  from thenM_Ok [OF s] obtain x t1 where
    b: "bindM (fs_readFile env (path_join directory ''tsconfig.build.json''))
                (\<lambda>tsconfigBuildJsonc.
                   fs_writeFile env (path_join directory ''tsconfig.build.json'')
                     (patchTsconfigJson env tsconfigBuildJsonc None False)) t = (Ok x, t1)"
    and r: "(if scope \<noteq> [] then
                bindM (fs_readFile env (path_join directory ''tsconfig.json''))
                  (\<lambda>tsconfigJsonc.
                     fs_writeFile env (path_join directory ''tsconfig.json'')
                       (patchTsconfigJson env tsconfigJsonc (Some scope) True))
              else returnM ()) t1 = (Ok u, t')"
    by blast
  from read_then_write_Ok [OF b] obtain build where
    t1: "t1 = t @ [ReadFile (path_join directory ''tsconfig.build.json'') (Inr build),
                   WriteFile (path_join directory ''tsconfig.build.json'')
                     (setOutDirAndInclude env build) None]"
    by (auto simp add: patchTsconfigJson_build)
  show ?thesis
  proof (cases "scope \<noteq> []")
    case True
    with r read_then_write_Ok obtain tsconfig where
      "t' = t1 @ [ReadFile (path_join directory ''tsconfig.json'') (Inr tsconfig),
                  WriteFile (path_join directory ''tsconfig.json'')
                    (patchTsconfigJson env tsconfig (Some scope) True) None]"
      by fastforce
    with True ws t1 show ?thesis
      by (auto simp add: tsconfigEvents_def patchTsconfigJson_paths)
  next
    case False
    with r have "t' = t1" by (simp add: returnM_def)
    with False ws t1 show ?thesis by (auto simp add: tsconfigEvents_def)
  qed
qed


lemma seqM_Cons_Ok:
  "seqM (m # ms) t = (Ok u, t') \<Longrightarrow> \<exists>t1. m t = (Ok (), t1) \<and> seqM ms t1 = (Ok u, t')"
  using thenM_Ok [of m "seqM ms" t u t'] by simp

lemma seqM_take_drop_Ok:
  assumes "seqM L t = (Ok u, t')"
  shows "\<exists>t1. seqM (take n L) t = (Ok (), t1) \<and> seqM (drop n L) t1 = (Ok u, t')"
proof -
  have "seqM L = thenM (seqM (take n L)) (seqM (drop n L))"
    using seqM_append [of "take n L" "drop n L"] by simp
  with assms thenM_Ok [of "seqM (take n L)" "seqM (drop n L)" t u t'] show ?thesis by simp
qed

lemma emits_seqM: "list_all (emits Q) L \<Longrightarrow> emits Q (seqM L)"
  by (induction L) (simp_all add: emits_returnM emits_thenM)

lemma emits_run: "emits Q m \<Longrightarrow> m t = (r, t') \<Longrightarrow> \<exists>evs. t' = t @ evs \<and> list_all Q evs"
  using emitsD [of Q m t] by simp

lemma runCommand_Ok:
  assumes "runCommand env c t = (Ok u, t')"
  shows "\<exists>evs. t' = t @ [Console Info (''Running command: '' @ c), Exec c evs] \<and> resolved (Exec c evs)"
proof -
  let ?evs = "on_exec env (t @ [Console Info (''Running command: '' @ c)]) c"
  from assms have t': "t' = t @ [Console Info (''Running command: '' @ c), Exec c ?evs]"
    and p: "awaitPromise (settled (childProcess ?evs)) = Ok ()"
    by (simp_all add: runCommand_run)
  have "resolved (Exec c ?evs)"
  proof (cases ?evs)
    case Nil
    with p show ?thesis by (simp add: childProcess_def spawned_def awaitPromise_def)
  next
    case (Cons ev evs)
    with p show ?thesis
      by (auto simp add: settled_childProcess awaitPromise_def
          split: child_event.splits if_splits option.splits)
  qed
  with t' show ?thesis by blast
qed

text \<open>
  What a run of \<open>preparePackage\<close> that returns has done: steps that read and write no file
  content, the scope prefix, the compiler configuration, more such steps, and the three
  commands of the package, each resolved.
\<close>

lemma preparePackage_Ok:
  assumes ok: "preparePackage env scope directory workspace sourceFile testFile license t = (Ok (), t')"
  shows "\<exists>before contents build tsconfig after lint build' test.
           t' = t @ before @ scopePrefixEvents scope directory contents
                  @ tsconfigEvents env scope directory workspace build tsconfig @ after
                  @ [Console Info (''Running command: npm '' @ workspace @ '' run lint''),
                     Exec (''npm '' @ workspace @ '' run lint'') lint,
                     Console Info (''Running command: npm '' @ workspace @ '' run build''),
                     Exec (''npm '' @ workspace @ '' run build'') build',
                     Console Info (''Running command: npm '' @ workspace @ '' run test''),
                     Exec (''npm '' @ workspace @ '' run test'') test]
           \<and> list_all (\<lambda>e. \<not> readsOrWrites e) before
           \<and> list_all (\<lambda>e. \<not> readsOrWrites e) after
           \<and> resolved (Exec (''npm '' @ workspace @ '' run lint'') lint)
           \<and> resolved (Exec (''npm '' @ workspace @ '' run build'') build')
           \<and> resolved (Exec (''npm '' @ workspace @ '' run test'') test)"
proof -
  define L where "L = preparePackageSteps env scope directory workspace sourceFile testFile license"
  note L = L_def preparePackageSteps_def
  from ok have s: "seqM L t = (Ok (), t')" by (simp add: preparePackage_def L_def)
  from seqM_take_drop_Ok [OF s, of 9] obtain t1 where
    A: "seqM (take 9 L) t = (Ok (), t1)" and r1: "seqM (drop 9 L) t1 = (Ok (), t')"
    by blast
  have "list_all (emits (\<lambda>e. \<not> readsOrWrites e)) (take 9 L)"
    unfolding L by (simp; intro conjI impI emits_rules emits_copyFiles; simp)
  from emits_run [OF emits_seqM [OF this] A] obtain before where
    t1: "t1 = t @ before" and qb: "list_all (\<lambda>e. \<not> readsOrWrites e) before"
    by blast
  have "drop 9 L = L ! 9 # L ! 10 # drop 11 L" by (simp add: L)
  with r1 have "seqM (L ! 9 # L ! 10 # drop 11 L) t1 = (Ok (), t')" by simp
  from seqM_Cons_Ok [OF this] obtain t2 where
    B: "(L ! 9) t1 = (Ok (), t2)" and r2: "seqM (L ! 10 # drop 11 L) t2 = (Ok (), t')"
    by blast
  from seqM_Cons_Ok [OF r2] obtain t3 where
    C: "(L ! 10) t2 = (Ok (), t3)" and r3: "seqM (drop 11 L) t3 = (Ok (), t')"
    by blast
  have "L ! 9 = bindM (fs_readFile env (path_join directory ''src/index.ts''))
             (\<lambda>contents.
                fs_writeFile env (path_join directory ''src/index.ts'')
                  (replace contents ''{{SCOPEPREFIX}}'' (if scope = [] then [] else scope @ ''/'')))"
    by (simp add: L Let_def)
  with B read_then_write_Ok obtain contents where
    t2: "t2 = t1 @ scopePrefixEvents scope directory contents"
    unfolding scopePrefixEvents_def by fastforce
  have "L ! 10 = patchTsconfigFiles env scope directory workspace" by (simp add: L)
  with C patchTsconfigFiles_Ok obtain build tsconfig where
    t3: "t3 = t2 @ tsconfigEvents env scope directory workspace build tsconfig"
    by fastforce
  from seqM_take_drop_Ok [OF r3, of 7] obtain t4 where
    D: "seqM (take 7 (drop 11 L)) t3 = (Ok (), t4)"
    and r4: "seqM (drop 7 (drop 11 L)) t4 = (Ok (), t')"
    by blast
  have "list_all (emits (\<lambda>e. \<not> readsOrWrites e)) (take 7 (drop 11 L))"
    unfolding L patchPackageJson_def by (simp; intro conjI impI emits_rules; simp)
  from emits_run [OF emits_seqM [OF this] D] obtain after where
    t4: "t4 = t3 @ after" and qa: "list_all (\<lambda>e. \<not> readsOrWrites e) after"
    by blast
  have "drop 7 (drop 11 L) =
          [runCommand env (''npm '' @ workspace @ '' run lint''),
           runCommand env (''npm '' @ workspace @ '' run build''),
           runCommand env (''npm '' @ workspace @ '' run test'')]"
    by (simp add: L)
  with r4 have r5: "seqM [runCommand env (''npm '' @ workspace @ '' run lint''),
           runCommand env (''npm '' @ workspace @ '' run build''),
           runCommand env (''npm '' @ workspace @ '' run test'')] t4 = (Ok (), t')"
    by simp
  from seqM_Cons_Ok [OF r5] obtain t5 where
    l: "runCommand env (''npm '' @ workspace @ '' run lint'') t4 = (Ok (), t5)"
    and r6: "seqM [runCommand env (''npm '' @ workspace @ '' run build''),
           runCommand env (''npm '' @ workspace @ '' run test'')] t5 = (Ok (), t')"
    by blast
  from seqM_Cons_Ok [OF r6] obtain t6 where
    b: "runCommand env (''npm '' @ workspace @ '' run build'') t5 = (Ok (), t6)"
    and r7: "seqM [runCommand env (''npm '' @ workspace @ '' run test'')] t6 = (Ok (), t')"
    by blast
  from seqM_Cons_Ok [OF r7] obtain t7 where
    c: "runCommand env (''npm '' @ workspace @ '' run test'') t6 = (Ok (), t7)"
    and r8: "seqM [] t7 = (Ok (), t')"
    by blast
  from r8 have t7: "t7 = t'" by (simp add: returnM_def)
  from runCommand_Ok [OF l] obtain lint where
    t5: "t5 = t4 @ [Console Info (''Running command: '' @ ''npm '' @ workspace @ '' run lint''),
                    Exec (''npm '' @ workspace @ '' run lint'') lint]"
    and rl: "resolved (Exec (''npm '' @ workspace @ '' run lint'') lint)"
    by blast
  from runCommand_Ok [OF b] obtain build' where
    t6: "t6 = t5 @ [Console Info (''Running command: '' @ ''npm '' @ workspace @ '' run build''),
                    Exec (''npm '' @ workspace @ '' run build'') build']"
    and rb: "resolved (Exec (''npm '' @ workspace @ '' run build'') build')"
    by blast
  from runCommand_Ok [OF c] obtain test where
    t7': "t7 = t6 @ [Console Info (''Running command: '' @ ''npm '' @ workspace @ '' run test''),
                    Exec (''npm '' @ workspace @ '' run test'') test]"
    and rt: "resolved (Exec (''npm '' @ workspace @ '' run test'') test)"
    by blast
  have "t' = t @ before @ scopePrefixEvents scope directory contents
                  @ tsconfigEvents env scope directory workspace build tsconfig @ after
                  @ [Console Info (''Running command: npm '' @ workspace @ '' run lint''),
                     Exec (''npm '' @ workspace @ '' run lint'') lint,
                     Console Info (''Running command: npm '' @ workspace @ '' run build''),
                     Exec (''npm '' @ workspace @ '' run build'') build',
                     Console Info (''Running command: npm '' @ workspace @ '' run test''),
                     Exec (''npm '' @ workspace @ '' run test'') test]"
    using t1 t2 t3 t4 t5 t6 t7 t7' by simp
  with qb qa rl rb rt show ?thesis by blast
qed


lemma filter_none: "list_all (\<lambda>e. \<not> P e) xs \<Longrightarrow> filter P xs = []"
  by (induction xs) simp_all

lemma filter_tsconfigEvents:
  "filter readsOrWrites (tsconfigEvents env scope directory workspace build tsconfig) =
     tsconfigEvents env scope directory workspace build tsconfig"
  by (simp add: tsconfigEvents_def)

lemma filter_scopePrefixEvents:
  "filter readsOrWrites (scopePrefixEvents scope directory contents) =
     scopePrefixEvents scope directory contents"
  by (simp add: scopePrefixEvents_def)

text \<open>
  Claim C2. In a run of \<open>preparePackage\<close> that returns, the reads and writes of file
  content are, in this order and nothing else: the scope prefix put into the source
  template, and the compiler-configuration edits of the specification. So the output
  directory and the include list are set once, in \<^verbatim>\<open>tsconfig.build.json\<close> for a workspace
  member and in the one \<^verbatim>\<open>tsconfig.json\<close> otherwise; the path mapping is added only for a
  non-empty scope, and for a workspace member only to \<^verbatim>\<open>tsconfig.json\<close>.
\<close>

theorem preparePackage_tsconfig_edits:
  "preparePackage env scope directory workspace sourceFile testFile license t = (Ok (), t') \<Longrightarrow>
   \<exists>contents build tsconfig.
     filter readsOrWrites (drop (length t) t') =
       scopePrefixEvents scope directory contents
       @ tsconfigEvents env scope directory workspace build tsconfig"
proof -
  assume "preparePackage env scope directory workspace sourceFile testFile license t = (Ok (), t')"
  from preparePackage_Ok [OF this] obtain before contents build tsconfig after lint build' test
    where t': "t' = t @ before @ scopePrefixEvents scope directory contents
                  @ tsconfigEvents env scope directory workspace build tsconfig @ after
                  @ [Console Info (''Running command: npm '' @ workspace @ '' run lint''),
                     Exec (''npm '' @ workspace @ '' run lint'') lint,
                     Console Info (''Running command: npm '' @ workspace @ '' run build''),
                     Exec (''npm '' @ workspace @ '' run build'') build',
                     Console Info (''Running command: npm '' @ workspace @ '' run test''),
                     Exec (''npm '' @ workspace @ '' run test'') test]"
      and q: "list_all (\<lambda>e. \<not> readsOrWrites e) before" "list_all (\<lambda>e. \<not> readsOrWrites e) after"
    by blast
  have "filter readsOrWrites (drop (length t) t') =
          scopePrefixEvents scope directory contents
          @ tsconfigEvents env scope directory workspace build tsconfig"
    unfolding t'
    by (simp add: filter_none [OF q(1)] filter_none [OF q(2)] filter_tsconfigEvents
        filter_scopePrefixEvents)
  then show ?thesis by blast
qed

lemma allM_sample_copy:
  "allM [m] t = (case m t of (r, t') \<Rightarrow> (firstFailure r (Ok []), t'))"
  by (simp add: split_beta)

lemma copyFiles_sample:
  "copyFiles (sampleEnv a code) fromDir toDir t =
     (Ok (),
      t @ [Console Info (''Copying files from '' @ fromDir @ '' to '' @ toDir),
           Readdir fromDir (Inr [''package.json'']),
           Stat (path_join fromDir ''package.json'') (Inr True),
           CopyFile (path_join fromDir ''package.json'') (path_join toDir ''package.json'') None])"
  by (simp add: copyFiles_def allFiles_def thenM_def bindM_def console_def fs_readdir_def
      fs_stat_isFile_def fs_copyFile_def returnM_def ofResult_def ofStatus_def sampleEnv_sel
      Let_def List.map_filter_def replaceLeadingDot_def startsWith_def)

lemma preparePackage_sample:
  "fst (preparePackage (sampleEnv None 0) ''@foo'' ''/work/packages/lib'' ''-w ./packages/lib''
          ''src/index.ts'' ''test/index.test.ts'' None []) = Ok ()"
  by (simp add: preparePackage_def preparePackageSteps_def thenM_def bindM_def returnM_def
      runCommand_sample copyFiles_sample fs_mkdir_def fs_copyFile_def fs_readFile_def
      fs_writeFile_def ofResult_def ofStatus_def sampleEnv_sel Let_def patchTsconfigFiles_def
      patchPackageJson_def)

theorem preparePackage_tsconfig_edits_witness:
  "fst (preparePackage (sampleEnv None 0) ''@foo'' ''/work/packages/lib'' ''-w ./packages/lib''
          ''src/index.ts'' ''test/index.test.ts'' None []) = Ok ()
   \<and> (\<exists>contents build tsconfig.
        filter readsOrWrites
          (snd (preparePackage (sampleEnv None 0) ''@foo'' ''/work/packages/lib''
                  ''-w ./packages/lib'' ''src/index.ts'' ''test/index.test.ts'' None [])) =
        scopePrefixEvents ''@foo'' ''/work/packages/lib'' contents
        @ tsconfigEvents (sampleEnv None 0) ''@foo'' ''/work/packages/lib'' ''-w ./packages/lib''
            build tsconfig)"
proof -
  let ?run = "preparePackage (sampleEnv None 0) ''@foo'' ''/work/packages/lib''
                ''-w ./packages/lib'' ''src/index.ts'' ''test/index.test.ts'' None []"
  have ok: "?run = (Ok (), snd ?run)"
    using preparePackage_sample by (simp add: prod_eq_iff)
  from preparePackage_tsconfig_edits [OF ok] preparePackage_sample show ?thesis by simp
qed

section \<open>Order of the two packages of a monorepo\<close>

lemma prefix_clash: "prefix p c \<Longrightarrow> prefix q c \<Longrightarrow> \<not> prefix p q \<Longrightarrow> \<not> prefix q p \<Longrightarrow> False"
  using prefix_same_cases by blast

lemma commandFor_lib_not_app: "commandFor libWorkspace c \<Longrightarrow> \<not> commandFor appWorkspace c"
proof
  assume l: "commandFor libWorkspace c" and a: "commandFor appWorkspace c"
  have n: "\<not> prefix p q" "\<not> prefix q p"
    if "p \<in> {''npm -w ./packages/lib '', ''npm install -w ./packages/lib '', ''npm init -y -w ./packages/lib ''}"
      and "q \<in> {''npm -w ./packages/app '', ''npm install -w ./packages/app '', ''npm init -y -w ./packages/app ''}"
    for p q :: string
    using that by auto
  from l obtain p where p: "prefix p c"
    "p \<in> {''npm -w ./packages/lib '', ''npm install -w ./packages/lib '', ''npm init -y -w ./packages/lib ''}"
    unfolding commandFor_def startsWith_def libWorkspace_def by auto
  from a obtain q where q: "prefix q c"
    "q \<in> {''npm -w ./packages/app '', ''npm install -w ./packages/app '', ''npm init -y -w ./packages/app ''}"
    unfolding commandFor_def startsWith_def appWorkspace_def by auto
  from prefix_clash [OF p(1) q(1)] n [OF p(2) q(2)] show False by blast
qed

lemma commandFor_app_not_lib: "commandFor appWorkspace c \<Longrightarrow> \<not> commandFor libWorkspace c"
  using commandFor_lib_not_app by blast

lemma inside_lib_not_app: "\<not> inside (appDir env) (path_join (libDir env) f)"
  by (simp add: inside_def startsWith_def appDir_def libDir_def path_join_def)

lemma inside_app_not_lib: "\<not> inside (libDir env) (path_join (appDir env) f)"
  by (simp add: inside_def startsWith_def appDir_def libDir_def path_join_def)

lemma inside_root_file:
  "\<not> inside (appDir env) (path_join (cwd env) ''.eslintrc.cjs'')"
  by (simp add: inside_def startsWith_def appDir_def path_join_def)


lemma not_app_preparePackage_lib:
  "emits (\<lambda>e. \<not> stepOf appWorkspace (appDir env) e)
     (preparePackage env scope (libDir env) libWorkspace sourceFile testFile license)"
  by (rule emits_preparePackage) (simp_all add: inside_lib_not_app commandFor_lib_not_app)

lemma not_lib_preparePackage_app:
  "emits (\<lambda>e. \<not> stepOf libWorkspace (libDir env) e)
     (preparePackage env scope (appDir env) appWorkspace sourceFile testFile license)"
  by (rule emits_preparePackage) (simp_all add: inside_app_not_lib commandFor_app_not_lib)


lemma emits_lib_part:
  "list_all (emits (\<lambda>e. \<not> stepOf appWorkspace (appDir env) e))
     (take 4 (monorepoFlowSteps env scope rootLicense))"
proof -
  let ?P = "\<lambda>e. \<not> stepOf appWorkspace (appDir env) e"
  have 1: "emits ?P (patchEslintImportInternal env scope)"
    unfolding patchEslintImportInternal_def
    by (intro emits_rules) (simp_all add: inside_root_file)
  have 2: "emits ?P (runCommand env ''npm install --save-dev typescript @sindresorhus/tsconfig'')"
    by (rule emits_runCommand) (simp_all add: commandFor_def startsWith_def appWorkspace_def)
  have "commandFor libWorkspace (''npm init -y '' @ libWorkspace @ '' '' @ scopeArg scope)"
    by (simp add: commandFor_def startsWith_def)
  then have 3: "emits ?P (runCommand env (''npm init -y '' @ libWorkspace @ '' '' @ scopeArg scope))"
    by (intro emits_runCommand) (simp_all add: commandFor_lib_not_app)
  note 4 = not_app_preparePackage_lib [of env scope "''src/index.ts''" "''test/index.test.ts''" rootLicense]
  from 1 2 3 4 show ?thesis by (simp add: monorepoFlowSteps_def)
qed


lemma emits_app_part:
  "list_all (emits (\<lambda>e. \<not> stepOf libWorkspace (libDir env) e))
     (drop 4 (monorepoFlowSteps env scope rootLicense))"
proof -
  let ?P = "\<lambda>e. \<not> stepOf libWorkspace (libDir env) e"
  have "commandFor appWorkspace (''npm init -y '' @ appWorkspace @ '' '' @ scopeArg scope)"
    by (simp add: commandFor_def startsWith_def)
  then have 1: "emits ?P (runCommand env (''npm init -y '' @ appWorkspace @ '' '' @ scopeArg scope))"
    by (intro emits_runCommand) (simp_all add: commandFor_app_not_lib)
  note 2 = not_lib_preparePackage_app [of env scope "''src/main.ts''" "''test/main.test.ts''" rootLicense]
  have 3: "emits ?P (runCommand env c)" if "\<not> commandFor libWorkspace c" for c
    using that by (intro emits_runCommand) simp_all
  have 4: "\<not> commandFor libWorkspace c"
    if "c \<in> {''npm pkg set scripts.build='' @ b, ''npm pkg set scripts.lint='' @ b,
              ''npm pkg set scripts.test='' @ b, ''npm run build'', ''npm run lint'',
              ''npm run test''}" for c b
    using that by (auto simp add: commandFor_def startsWith_def libWorkspace_def)
  from 1 2 show ?thesis
    by (simp add: monorepoFlowSteps_def 3 4)
qed


lemma provisioned_ends:
  assumes "resolved (Exec (''npm '' @ workspace @ '' run lint'') lint)"
    and "resolved (Exec (''npm '' @ workspace @ '' run build'') build)"
    and "resolved (Exec (''npm '' @ workspace @ '' run test'') test)"
  shows "provisioned workspace
           (pre @ [Console Info l1, Exec (''npm '' @ workspace @ '' run lint'') lint,
                   Console Info l2, Exec (''npm '' @ workspace @ '' run build'') build,
                   Console Info l3, Exec (''npm '' @ workspace @ '' run test'') test])"
  using assms by (simp add: provisioned_def Let_def)

lemma thenM_extends:
  assumes "emits P n"
  shows "\<exists>zs. snd (thenM m n t) = snd (m t) @ zs"
proof -
  obtain r t1 where m: "m t = (r, t1)" by (cases "m t")
  show ?thesis
  proof (cases r)
    case (Ok x)
    from emitsD [OF assms, of t1] obtain zs where "snd (n t1) = t1 @ zs" by blast
    with m Ok show ?thesis by (simp add: thenM_def bindM_def)
  qed (use m in \<open>simp_all add: thenM_def bindM_def\<close>)
qed

text \<open>
  Claim C3. Whatever the environment answers, the events of the monorepo branch split in
  two: a first part with no step on the application package, and a second part with no
  step on the library package. The second part is empty (the run ended in the first), or
  else the first part ends with the lint, build and test scripts of the library package,
  each resolved, and the second part starts with the command that creates the application
  workspace.
\<close>

theorem monorepoFlow_lib_before_app:
  "\<exists>xs ys. snd (monorepoFlow env scope rootLicense t) = t @ xs @ ys
     \<and> list_all (\<lambda>e. \<not> stepOf appWorkspace (appDir env) e) xs
     \<and> list_all (\<lambda>e. \<not> stepOf libWorkspace (libDir env) e) ys
     \<and> (ys = [] \<or>
        provisioned libWorkspace xs
        \<and> take 1 ys =
            [Console Info (''Running command: npm init -y '' @ appWorkspace @ '' '' @ scopeArg scope)])"
proof -
  define L where "L = monorepoFlowSteps env scope rootLicense"
  let ?A = "\<lambda>e. \<not> stepOf appWorkspace (appDir env) e"
  let ?B = "\<lambda>e. \<not> stepOf libWorkspace (libDir env) e"
  let ?init = "''npm init -y '' @ appWorkspace @ '' '' @ scopeArg scope"
  have flow: "monorepoFlow env scope rootLicense = thenM (seqM (take 4 L)) (seqM (drop 4 L))"
    using seqM_append [of "take 4 L" "drop 4 L"] by (simp add: monorepoFlow_def L_def)
  have eA: "emits ?A (seqM (take 4 L))"
    unfolding L_def by (rule emits_seqM [OF emits_lib_part])
  have lB: "list_all (emits ?B) (drop 4 L)"
    unfolding L_def by (rule emits_app_part)
  have eB: "emits ?B (seqM (drop 4 L))"
    by (rule emits_seqM [OF lB])
  obtain r t1 where A: "seqM (take 4 L) t = (r, t1)" by (cases "seqM (take 4 L) t")
  from emits_run [OF eA A] obtain xs where t1: "t1 = t @ xs" and xs: "list_all ?A xs"
    by blast
  show ?thesis
  proof (cases r)
    case (Ok u)
    obtain r' t' where B: "seqM (drop 4 L) t1 = (r', t')" by (cases "seqM (drop 4 L) t1")
    from emits_run [OF eB B] obtain ys where t': "t' = t1 @ ys" and ys: "list_all ?B ys"
      by blast
    from A Ok B have run: "snd (monorepoFlow env scope rootLicense t) = t'"
      by (simp add: flow thenM_def bindM_def)
    \<comment> \<open>the library package has run its scripts\<close>
    from A Ok have A': "seqM (take 4 L) t = (Ok (), t1)" by simp
    from seqM_take_drop_Ok [OF A', of 3] obtain t0 where
      a3: "seqM (take 3 (take 4 L)) t = (Ok (), t0)"
      and p: "seqM (drop 3 (take 4 L)) t0 = (Ok (), t1)"
      by blast
    have "list_all (emits ?A) (take 3 (take 4 L))"
      using emits_lib_part [of env scope rootLicense]
        set_take_subset_set_take [of 3 4 L]
      by (auto simp add: L_def list_all_iff)
    from emits_run [OF emits_seqM [OF this] a3] obtain pre0 where t0: "t0 = t @ pre0"
      by blast
    have "drop 3 (take 4 L) =
            [preparePackage env scope (libDir env) libWorkspace ''src/index.ts''
               ''test/index.test.ts'' rootLicense]"
      by (simp add: L_def monorepoFlowSteps_def)
    with p have "seqM [preparePackage env scope (libDir env) libWorkspace ''src/index.ts''
               ''test/index.test.ts'' rootLicense] t0 = (Ok (), t1)"
      by simp
    from seqM_Cons_Ok [OF this] obtain t1' where
      pp: "preparePackage env scope (libDir env) libWorkspace ''src/index.ts''
             ''test/index.test.ts'' rootLicense t0 = (Ok (), t1')"
      and "seqM [] t1' = (Ok (), t1)"
      by blast
    then have "t1' = t1" by (simp add: returnM_def)
    with preparePackage_Ok [OF pp] obtain mid lint build test where
      e: "t1 = t0 @ mid @ [Console Info (''Running command: npm '' @ libWorkspace @ '' run lint''),
                     Exec (''npm '' @ libWorkspace @ '' run lint'') lint,
                     Console Info (''Running command: npm '' @ libWorkspace @ '' run build''),
                     Exec (''npm '' @ libWorkspace @ '' run build'') build,
                     Console Info (''Running command: npm '' @ libWorkspace @ '' run test''),
                     Exec (''npm '' @ libWorkspace @ '' run test'') test]"
      and rs: "resolved (Exec (''npm '' @ libWorkspace @ '' run lint'') lint)"
        "resolved (Exec (''npm '' @ libWorkspace @ '' run build'') build)"
        "resolved (Exec (''npm '' @ libWorkspace @ '' run test'') test)"
      by (metis append.assoc)
    from e t0 t1 have "xs = (pre0 @ mid) @
                    [Console Info (''Running command: npm '' @ libWorkspace @ '' run lint''),
                     Exec (''npm '' @ libWorkspace @ '' run lint'') lint,
                     Console Info (''Running command: npm '' @ libWorkspace @ '' run build''),
                     Exec (''npm '' @ libWorkspace @ '' run build'') build,
                     Console Info (''Running command: npm '' @ libWorkspace @ '' run test''),
                     Exec (''npm '' @ libWorkspace @ '' run test'') test]"
      by simp
    then have pxs: "provisioned libWorkspace xs"
      by (simp only: provisioned_ends [OF rs])
    \<comment> \<open>and only then the application package is created\<close>
    have d4: "drop 4 L = runCommand env ?init # drop 5 L"
      by (simp add: L_def monorepoFlowSteps_def)
    with lB have "emits ?B (seqM (drop 5 L))" by (simp add: emits_seqM)
    from thenM_extends [OF this, of "runCommand env ?init" t1] d4 B obtain zs where
      z: "t' = snd (runCommand env ?init t1) @ zs"
      by auto
    obtain answer where
      "snd (runCommand env ?init t1) =
         t1 @ [Console Info (''Running command: '' @ ?init), Exec ?init answer]"
      by (simp add: runCommand_run)
    with z t' have "ys = Console Info (''Running command: '' @ ?init) # Exec ?init answer # zs"
      by simp
    then have hd: "take 1 ys =
            [Console Info (''Running command: npm init -y '' @ appWorkspace @ '' '' @ scopeArg scope)]"
      by simp
    from run t' t1 xs ys pxs hd show ?thesis
      by (intro exI [of _ xs] exI [of _ ys]) simp
  next
    case (Throw e)
    with A have "snd (monorepoFlow env scope rootLicense t) = t1"
      by (simp add: flow thenM_def bindM_def)
    with t1 xs show ?thesis by (intro exI [of _ xs] exI [of _ "[]"]) simp
  next
    case (Exited c)
    with A have "snd (monorepoFlow env scope rootLicense t) = t1"
      by (simp add: flow thenM_def bindM_def)
    with t1 xs show ?thesis by (intro exI [of _ xs] exI [of _ "[]"]) simp
  next
    case Hangs
    with A have "snd (monorepoFlow env scope rootLicense t) = t1"
      by (simp add: flow thenM_def bindM_def)
    with t1 xs show ?thesis by (intro exI [of _ xs] exI [of _ "[]"]) simp
  qed
qed


lemma monorepoFlow_sample:
  "list_ex (stepOf appWorkspace (appDir (sampleEnv None 0)))
     (snd (monorepoFlow (sampleEnv None 0) ''@foo'' None []))"
  by (simp add: monorepoFlow_def monorepoFlowSteps_def preparePackage_def preparePackageSteps_def
      thenM_def bindM_def returnM_def runCommand_sample copyFiles_sample fs_mkdir_def
      fs_copyFile_def fs_readFile_def fs_writeFile_def ofResult_def ofStatus_def sampleEnv_sel
      Let_def patchTsconfigFiles_def patchPackageJson_def patchEslintImportInternal_def
      appWorkspace_def libWorkspace_def appDir_def libDir_def commandFor_def inside_def
      startsWith_def path_join_def scopeArg_def)

theorem monorepoFlow_lib_before_app_witness:
  "list_ex (stepOf appWorkspace (appDir (sampleEnv None 0)))
     (snd (monorepoFlow (sampleEnv None 0) ''@foo'' None []))
   \<and> (\<exists>xs ys. snd (monorepoFlow (sampleEnv None 0) ''@foo'' None []) = xs @ ys
        \<and> list_all (\<lambda>e. \<not> stepOf appWorkspace (appDir (sampleEnv None 0)) e) xs
        \<and> list_all (\<lambda>e. \<not> stepOf libWorkspace (libDir (sampleEnv None 0)) e) ys
        \<and> provisioned libWorkspace xs
        \<and> take 1 ys = [Console Info ''Running command: npm init -y -w ./packages/app --scope=@foo''])"
proof -
  let ?E = "sampleEnv None 0"
  from monorepoFlow_lib_before_app [of ?E "''@foo''" None "[]"] obtain xs ys where
    s: "snd (monorepoFlow ?E ''@foo'' None []) = xs @ ys"
    and xs: "list_all (\<lambda>e. \<not> stepOf appWorkspace (appDir ?E) e) xs"
    and ys: "list_all (\<lambda>e. \<not> stepOf libWorkspace (libDir ?E) e) ys"
    and d: "ys = [] \<or>
        provisioned libWorkspace xs
        \<and> take 1 ys =
            [Console Info (''Running command: npm init -y '' @ appWorkspace @ '' '' @ scopeArg ''@foo'')]"
    by auto
  from monorepoFlow_sample s xs have "ys \<noteq> []"
    by (auto simp add: list_ex_iff list_all_iff)
  with d have "provisioned libWorkspace xs"
    and "take 1 ys = [Console Info ''Running command: npm init -y -w ./packages/app --scope=@foo'']"
    by (simp_all add: appWorkspace_def scopeArg_def)
  with s xs ys monorepoFlow_sample show ?thesis by blast
qed

end
